theory Spec2Isabelle
  imports Complex_Main "HOL-Library.Word"
begin

section \<open>Machine integers and time\<close>

text \<open>
  Go's \<^verbatim>\<open>int\<close> (on the 64-bit platforms the library targets) and
  \<^verbatim>\<open>time.Duration\<close> are 64-bit two's complement integers: arithmetic wraps around and
  comparisons are signed (\<open>\<le>s\<close>, \<open><s\<close>).  A \<^verbatim>\<open>time.Time\<close> obtained from
  \<^verbatim>\<open>time.Now()\<close> carries a monotonic clock reading; it is modelled by that reading in
  nanoseconds.  \<^verbatim>\<open>t.Sub(u)\<close> is the difference of the readings, saturated to the range of
  a Duration as the standard library does.
\<close>

type_synonym int64 = "64 word"
type_synonym Duration = "64 word"
type_synonym Time = int

definition maxDuration :: int where
  "maxDuration = 2 ^ 63 - 1"

definition minDuration :: int where
  "minDuration = - (2 ^ 63)"

definition Sub :: "Time \<Rightarrow> Time \<Rightarrow> Duration" where
  "Sub t u =
     (let d = t - u in
      if maxDuration < d then word_of_int maxDuration
      else if d < minDuration then word_of_int minDuration
      else word_of_int d)"

text \<open>Go's \<^verbatim>\<open>min\<close> on signed integers.\<close>

definition min64 :: "int64 \<Rightarrow> int64 \<Rightarrow> int64" where
  "min64 a b = (if a \<le>s b then a else b)"

text \<open>Go's integer division truncates towards zero.\<close>

definition quo64 :: "int64 \<Rightarrow> int64 \<Rightarrow> int64" where
  "quo64 a b = word_of_int (sgn (sint a) * sgn (sint b) * (\<bar>sint a\<bar> div \<bar>sint b\<bar>))"

section \<open>float64\<close>

text \<open>
  The wait estimates and the token estimator compute in \<^verbatim>\<open>float64\<close>.  A finite double
  is modelled by the real number it denotes; \<open>round_f64\<close> rounds a real to the nearest
  number with a 53-bit significand, ties to even, which is what every IEEE 754 operation
  does to its exact result.  The exponent is left unbounded: the operands of this program
  are conversions of 64-bit integers and their products and quotients, whose magnitudes
  lie between \<open>2\<^sup>-\<^sup>6\<^sup>3\<close> and \<open>2\<^sup>1\<^sup>2\<^sup>6\<close>, far inside the range of normal
  doubles, so neither overflow nor gradual underflow arises.  Division by zero does
  arise (a bucket of capacity 0), so zeros of both signs, the infinities and NaN are
  values of the type.
\<close>

fun bit_length :: "nat \<Rightarrow> nat" where
  "bit_length n = (if n = 0 then 0 else Suc (bit_length (n div 2)))"

declare bit_length.simps [simp del]

lemma bit_length_0 [simp]: "bit_length 0 = 0"
  by (simp add: bit_length.simps)

lemma bit_length_pos: "0 < n \<Longrightarrow> bit_length n = Suc (bit_length (n div 2))"
  by (subst bit_length.simps) simp

lemma bit_length_1 [simp]: "bit_length 1 = 1"
  by (simp add: bit_length_pos)

lemma bit_length_Suc_0 [simp]: "bit_length (Suc 0) = 1"
  by (simp add: bit_length_pos)

lemma bit_length_Bit0 [simp]:
  "bit_length (numeral (Num.Bit0 n)) = Suc (bit_length (numeral n))"
  by (simp add: bit_length_pos)

lemma bit_length_Bit1 [simp]:
  "bit_length (numeral (Num.Bit1 n)) = Suc (bit_length (numeral n))"
  by (simp add: bit_length_pos)

definition pow2 :: "int \<Rightarrow> real" where
  "pow2 k = (if 0 \<le> k then 2 ^ nat k else 1 / 2 ^ nat (- k))"

text \<open>\<open>ilog2 q\<close> is the exponent \<open>e\<close> with \<open>2\<^sup>e \<le> q < 2\<^sup>e\<^sup>+\<^sup>1\<close>, for \<open>q > 0\<close>.\<close>

definition ilog2 :: "real \<Rightarrow> int" where
  "ilog2 q = (if 1 \<le> q then int (bit_length (nat \<lfloor>q\<rfloor>)) - 1
              else - int (bit_length (nat (\<lceil>1 / q\<rceil> - 1))))"

text \<open>Round to the nearest integer, ties to even.\<close>

definition rne :: "real \<Rightarrow> int" where
  "rne m = (let f = \<lfloor>m\<rfloor>; d = m - of_int f in
            if d < 1 / 2 then f else if 1 / 2 < d then f + 1
            else if even f then f else f + 1)"

definition round_f64 :: "real \<Rightarrow> real" where
  "round_f64 q = (if q = 0 then 0
     else let u = pow2 (ilog2 \<bar>q\<bar> - 52) in of_int (rne (q / u)) * u)"

datatype f64 = Fin real | NegZero | PInf | NInf | NaN

fun is_zero :: "f64 \<Rightarrow> bool" where
  "is_zero (Fin q) = (q = 0)"
| "is_zero NegZero = True"
| "is_zero _ = False"

fun is_inf :: "f64 \<Rightarrow> bool" where
  "is_inf PInf = True"
| "is_inf NInf = True"
| "is_inf _ = False"

fun signbit :: "f64 \<Rightarrow> bool" where
  "signbit (Fin q) = (q < 0)"
| "signbit NegZero = True"
| "signbit PInf = False"
| "signbit NInf = True"
| "signbit NaN = False"

fun val :: "f64 \<Rightarrow> real" where
  "val (Fin q) = q"
| "val _ = 0"

definition f64_zero :: "bool \<Rightarrow> f64" where
  "f64_zero neg = (if neg then NegZero else Fin 0)"

definition f64_inf :: "bool \<Rightarrow> f64" where
  "f64_inf neg = (if neg then NInf else PInf)"

text \<open>\<^verbatim>\<open>float64(i)\<close> for an integer \<open>i\<close>.\<close>

definition f64_of_int64 :: "int64 \<Rightarrow> f64" where
  "f64_of_int64 w = Fin (round_f64 (of_int (sint w)))"

text \<open>\<^verbatim>\<open>x / y\<close> and \<^verbatim>\<open>x * y\<close> on float64.\<close>

definition fdiv :: "f64 \<Rightarrow> f64 \<Rightarrow> f64" where
  "fdiv x y =
     (if x = NaN \<or> y = NaN then NaN
      else if is_inf x then (if is_inf y then NaN else f64_inf (signbit x \<noteq> signbit y))
      else if is_inf y then f64_zero (signbit x \<noteq> signbit y)
      else if is_zero y then (if is_zero x then NaN else f64_inf (signbit x \<noteq> signbit y))
      else if is_zero x then f64_zero (signbit x \<noteq> signbit y)
      else Fin (round_f64 (val x / val y)))"

definition fmul :: "f64 \<Rightarrow> f64 \<Rightarrow> f64" where
  "fmul x y =
     (if x = NaN \<or> y = NaN then NaN
      else if is_inf x \<or> is_inf y
        then (if is_zero x \<or> is_zero y then NaN else f64_inf (signbit x \<noteq> signbit y))
      else if is_zero x \<or> is_zero y then f64_zero (signbit x \<noteq> signbit y)
      else Fin (round_f64 (val x * val y)))"

text \<open>\<^verbatim>\<open>math.Ceil\<close>.\<close>

fun fceil :: "f64 \<Rightarrow> f64" where
  "fceil (Fin q) = (if q < 0 \<and> \<lceil>q\<rceil> = 0 then NegZero else Fin (of_int \<lceil>q\<rceil>))"
| "fceil x = x"

text \<open>
  The conversions \<^verbatim>\<open>int(f)\<close> and \<^verbatim>\<open>time.Duration(f)\<close> discard the fraction
  (truncation towards zero).  When the truncated value is not an int64 (or \<open>f\<close> is an
  infinity or NaN) the language leaves the result to the implementation; that result is
  the parameter \<open>oor\<close> of the model, and everything proved holds for every choice of it.
\<close>

definition trunc_rat :: "real \<Rightarrow> int" where
  "trunc_rat q = (if 0 \<le> q then \<lfloor>q\<rfloor> else \<lceil>q\<rceil>)"

fun int64_of_f64 :: "(f64 \<Rightarrow> int64) \<Rightarrow> f64 \<Rightarrow> int64" where
  "int64_of_f64 oor (Fin q) =
     (if - (2 ^ 63) \<le> trunc_rat q \<and> trunc_rat q < 2 ^ 63 then word_of_int (trunc_rat q)
      else oor (Fin q))"
| "int64_of_f64 oor NegZero = 0"
| "int64_of_f64 oor x = oor x"

section \<open>Token bucket\<close>

text \<open>
  \<^verbatim>\<open>type TokenBucket struct { mu; capacity, remaining int; refillInterval time.Duration;
  lastRefill time.Time }\<close>.  Every method holds the bucket's mutex for its whole body, so
  a method is one atomic step on the record; the clock reading \<^verbatim>\<open>time.Now()\<close> taken
  inside the method is passed as the argument \<open>now\<close>.
\<close>

record TokenBucket =
  capacity :: int64
  remaining :: int64
  refillInterval :: Duration
  lastRefill :: Time

definition NewTokenBucket :: "int64 \<Rightarrow> int64 \<Rightarrow> Duration \<Rightarrow> Time \<Rightarrow> TokenBucket" where
  "NewTokenBucket cap initialTokens interval now =
     \<lparr>capacity = cap, remaining = initialTokens, refillInterval = interval, lastRefill = now\<rparr>"

text \<open>The test \<^verbatim>\<open>now.Sub(tb.lastRefill) >= tb.refillInterval\<close> shared by all methods.\<close>

definition refillDue :: "TokenBucket \<Rightarrow> Time \<Rightarrow> bool" where
  "refillDue tb now \<longleftrightarrow> refillInterval tb \<le>s Sub now (lastRefill tb)"

definition TB_HasCapacity :: "TokenBucket \<Rightarrow> int64 \<Rightarrow> Time \<Rightarrow> bool" where
  "TB_HasCapacity tb tokens now =
     (let rem = (if refillDue tb now then capacity tb else remaining tb)
      in tokens \<le>s rem)"

text \<open>The refill-if-due step that opens \<^verbatim>\<open>Consume\<close>.\<close>

definition refill :: "TokenBucket \<Rightarrow> Time \<Rightarrow> TokenBucket" where
  "refill tb now =
     (if refillDue tb now then tb\<lparr>remaining := capacity tb, lastRefill := now\<rparr> else tb)"

definition TB_Consume :: "TokenBucket \<Rightarrow> int64 \<Rightarrow> Time \<Rightarrow> TokenBucket \<times> bool" where
  "TB_Consume tb tokens now =
     (let tb1 = refill tb now in
      if tokens \<le>s remaining tb1
      then (tb1\<lparr>remaining := remaining tb1 - tokens\<rparr>, True)
      else (tb1, False))"

definition TB_TryConsume :: "TokenBucket \<Rightarrow> int64 \<Rightarrow> Time \<Rightarrow> TokenBucket \<times> bool" where
  "TB_TryConsume tb tokens now = TB_Consume tb tokens now"

text \<open>
  The partial refill of \<^verbatim>\<open>TimeUntilAvailable\<close> and \<^verbatim>\<open>Wait\<close>:
  \<^verbatim>\<open>int(float64(tb.capacity) * (float64(timeSinceLastRefill) / float64(tb.refillInterval)))\<close>.
\<close>

definition replenishedTokens :: "(f64 \<Rightarrow> int64) \<Rightarrow> TokenBucket \<Rightarrow> Duration \<Rightarrow> int64" where
  "replenishedTokens oor tb timeSinceLastRefill =
     int64_of_f64 oor
       (fmul (f64_of_int64 (capacity tb))
          (fdiv (f64_of_int64 timeSinceLastRefill) (f64_of_int64 (refillInterval tb))))"

text \<open>
  The tail shared by \<^verbatim>\<open>TimeUntilAvailable\<close> and \<^verbatim>\<open>Wait\<close>, from the amount
  \<open>rem\<close> available after the refill: zero if \<open>tokens \<le> rem\<close>, else
  \<^verbatim>\<open>waitDuration + waitDuration/10\<close> with
  \<^verbatim>\<open>waitDuration = time.Duration(float64(tokensNeeded) / tokenRefillRate)\<close>.
\<close>

definition waitFor :: "(f64 \<Rightarrow> int64) \<Rightarrow> TokenBucket \<Rightarrow> int64 \<Rightarrow> int64 \<Rightarrow> Duration" where
  "waitFor oor tb tokens rem =
     (if tokens \<le>s rem then 0
      else
        let tokensNeeded = tokens - rem;
            tokenRefillRate = fdiv (f64_of_int64 (capacity tb)) (f64_of_int64 (refillInterval tb));
            waitDuration = int64_of_f64 oor (fdiv (f64_of_int64 tokensNeeded) tokenRefillRate)
        in waitDuration + quo64 waitDuration 10)"

definition effectiveRemaining :: "(f64 \<Rightarrow> int64) \<Rightarrow> TokenBucket \<Rightarrow> Time \<Rightarrow> int64" where
  "effectiveRemaining oor tb now =
     (let timeSinceLastRefill = Sub now (lastRefill tb) in
      if refillInterval tb \<le>s timeSinceLastRefill then capacity tb
      else if 0 <s timeSinceLastRefill
        then min64 (capacity tb) (remaining tb + replenishedTokens oor tb timeSinceLastRefill)
      else remaining tb)"

text \<open>\<^verbatim>\<open>TimeUntilAvailable\<close> assigns no field of the bucket; it only returns a duration.\<close>

definition TB_TimeUntilAvailable ::
    "(f64 \<Rightarrow> int64) \<Rightarrow> TokenBucket \<Rightarrow> int64 \<Rightarrow> Time \<Rightarrow> Duration" where
  "TB_TimeUntilAvailable oor tb tokens now = waitFor oor tb tokens (effectiveRemaining oor tb now)"

text \<open>\<^verbatim>\<open>Wait\<close> commits the full or partial refill, then computes the same estimate.\<close>

definition TB_Wait ::
    "(f64 \<Rightarrow> int64) \<Rightarrow> TokenBucket \<Rightarrow> int64 \<Rightarrow> Time \<Rightarrow> TokenBucket \<times> Duration" where
  "TB_Wait oor tb tokens now =
     (let timeSinceLastRefill = Sub now (lastRefill tb);
          tb1 =
            (if refillInterval tb \<le>s timeSinceLastRefill
               then tb\<lparr>remaining := capacity tb, lastRefill := now\<rparr>
             else if 0 <s timeSinceLastRefill
               then tb\<lparr>remaining :=
                         min64 (capacity tb)
                           (remaining tb + replenishedTokens oor tb timeSinceLastRefill),
                       lastRefill := now\<rparr>
             else tb)
      in (tb1, waitFor oor tb1 tokens (remaining tb1)))"

section \<open>Composite rate limiter\<close>

text \<open>
  \<^verbatim>\<open>type RateLimiter struct { TokensBucket, RequestsBucket *TokenBucket }\<close>.  Every
  constructor of the package allocates two distinct buckets, so the limiter is a record of
  two bucket values.  \<^verbatim>\<open>TryConsume\<close> is
  \<^verbatim>\<open>rl.TokensBucket.TryConsume(numTokens) && rl.RequestsBucket.TryConsume(1)\<close>: the
  second call, with its own clock reading \<open>t2\<close>, happens only when the first returned
  true.
\<close>

record RateLimiter =
  TokensBucket :: TokenBucket
  RequestsBucket :: TokenBucket

record RateLimitConfig =
  TokensPerMinute :: int64
  RequestsPerMinute :: int64

definition Minute :: Duration where
  "Minute = 60000000000"

definition NewLimiter :: "RateLimitConfig \<Rightarrow> Time \<Rightarrow> Time \<Rightarrow> RateLimiter" where
  "NewLimiter config t1 t2 =
     \<lparr>TokensBucket = NewTokenBucket (TokensPerMinute config) (TokensPerMinute config) Minute t1,
      RequestsBucket =
        NewTokenBucket (RequestsPerMinute config) (RequestsPerMinute config) Minute t2\<rparr>"

definition RL_HasCapacity :: "RateLimiter \<Rightarrow> int64 \<Rightarrow> Time \<Rightarrow> Time \<Rightarrow> bool" where
  "RL_HasCapacity rl numTokens t1 t2 \<longleftrightarrow>
     TB_HasCapacity (TokensBucket rl) numTokens t1 \<and> TB_HasCapacity (RequestsBucket rl) 1 t2"

definition RL_TryConsume :: "RateLimiter \<Rightarrow> int64 \<Rightarrow> Time \<Rightarrow> Time \<Rightarrow> RateLimiter \<times> bool" where
  "RL_TryConsume rl numTokens t1 t2 =
     (case TB_TryConsume (TokensBucket rl) numTokens t1 of
        (tb', False) \<Rightarrow> (rl\<lparr>TokensBucket := tb'\<rparr>, False)
      | (tb', True) \<Rightarrow>
          (case TB_TryConsume (RequestsBucket rl) 1 t2 of
             (rb', ok) \<Rightarrow> (rl\<lparr>TokensBucket := tb', RequestsBucket := rb'\<rparr>, ok)))"

definition RL_CanProceed :: "RateLimiter \<Rightarrow> int64 \<Rightarrow> Time \<Rightarrow> Time \<Rightarrow> RateLimiter \<times> bool" where
  "RL_CanProceed rl numTokens t1 t2 = RL_TryConsume rl numTokens t1 t2"

definition RL_Consume :: "RateLimiter \<Rightarrow> int64 \<Rightarrow> Time \<Rightarrow> Time \<Rightarrow> RateLimiter \<times> bool" where
  "RL_Consume rl numTokens t1 t2 = RL_TryConsume rl numTokens t1 t2"

definition RL_Wait :: "(f64 \<Rightarrow> int64) \<Rightarrow> RateLimiter \<Rightarrow> int64 \<Rightarrow> Time \<Rightarrow> RateLimiter \<times> Duration" where
  "RL_Wait oor rl tokens now =
     (case TB_Wait oor (TokensBucket rl) tokens now of
        (tb', d) \<Rightarrow> (rl\<lparr>TokensBucket := tb'\<rparr>, d))"

definition RL_TimeUntilAvailable ::
    "(f64 \<Rightarrow> int64) \<Rightarrow> RateLimiter \<Rightarrow> int64 \<Rightarrow> Time \<Rightarrow> Time \<Rightarrow> Duration" where
  "RL_TimeUntilAvailable oor rl tokens t1 t2 =
     (let tokenWait = TB_TimeUntilAvailable oor (TokensBucket rl) tokens t1;
          requestWait = TB_TimeUntilAvailable oor (RequestsBucket rl) 1 t2
      in if requestWait <s tokenWait then tokenWait else requestWait)"

text \<open>
  Errors are values.  \<open>RateLimitError\<close> carries \<^verbatim>\<open>RetryAfter\<close>, \<^verbatim>\<open>LimitType\<close> and
  \<^verbatim>\<open>Model\<close>; \<open>ErrWaitExceeded\<close> and \<open>ErrAcquireFailed\<close> are the two
  \<^verbatim>\<open>fmt.Errorf\<close> values of \<^verbatim>\<open>WaitAndConsume\<close>; \<open>CtxError\<close> is \<^verbatim>\<open>ctx.Err()\<close>.
\<close>

datatype error =
    ErrModelNotRegistered string
  | ErrProviderNotConfigured string
  | RateLimitError Duration string string
  | ErrWaitExceeded Duration Duration
  | ErrAcquireFailed
  | CtxError string
  | BackendError string

text \<open>
  What \<^verbatim>\<open>WaitAndConsume\<close> did about sleeping: no timer, a timer that ran its full
  duration, or a timer cut short by the context.
\<close>

datatype sleep = NoSleep | Slept Duration | Interrupted Duration

text \<open>
  The caller's context is the function \<open>ctx\<close>: for a timer of duration \<open>d\<close> it tells
  whether \<^verbatim>\<open>ctx.Done()\<close> wins the \<^verbatim>\<open>select\<close> (and with which error) or the timer
  does.  The clock \<open>c\<close> gives the reading taken at each of the four places a
  \<^verbatim>\<open>time.Now()\<close> can run: \<open>c 0\<close> and \<open>c 1\<close> in the two consumes, \<open>c 2\<close> and
  \<open>c 3\<close> in the two wait estimates.
\<close>

definition consumeAfterWait ::
    "RateLimiter \<Rightarrow> int64 \<Rightarrow> (nat \<Rightarrow> Time) \<Rightarrow> sleep \<Rightarrow> RateLimiter \<times> error option \<times> sleep" where
  "consumeAfterWait rl tokens c sl =
     (case RL_CanProceed rl tokens (c 0) (c 1) of
        (rl', ok) \<Rightarrow> (rl', if ok then None else Some ErrAcquireFailed, sl))"

definition RL_WaitAndConsume ::
    "(f64 \<Rightarrow> int64) \<Rightarrow> RateLimiter \<Rightarrow> (Duration \<Rightarrow> string option) \<Rightarrow> int64 \<Rightarrow> Duration
       \<Rightarrow> (nat \<Rightarrow> Time) \<Rightarrow> RateLimiter \<times> error option \<times> sleep" where
  "RL_WaitAndConsume oor rl ctx tokens maxWait c =
     (let waitDuration = RL_TimeUntilAvailable oor rl tokens (c 2) (c 3) in
      if 0 <s waitDuration then
        (if 0 <s maxWait \<and> maxWait <s waitDuration
           then (rl, Some (ErrWaitExceeded waitDuration maxWait), NoSleep)
         else
           (case ctx waitDuration of
              Some e \<Rightarrow> (rl, Some (CtxError e), Interrupted waitDuration)
            | None \<Rightarrow> consumeAfterWait rl tokens c (Slept waitDuration)))
      else consumeAfterWait rl tokens c NoSleep)"

text \<open>The state-changing and the read-only methods of a bucket and of a limiter, as steps.\<close>

datatype tb_op =
    OpConsume int64
  | OpTryConsume int64
  | OpWait int64
  | OpHasCapacity int64
  | OpTimeUntilAvailable int64

fun TB_step :: "(f64 \<Rightarrow> int64) \<Rightarrow> TokenBucket \<Rightarrow> tb_op \<times> Time \<Rightarrow> TokenBucket" where
  "TB_step oor tb (OpConsume n, now) = fst (TB_Consume tb n now)"
| "TB_step oor tb (OpTryConsume n, now) = fst (TB_TryConsume tb n now)"
| "TB_step oor tb (OpWait n, now) = fst (TB_Wait oor tb n now)"
| "TB_step oor tb (OpHasCapacity n, now) = tb"
| "TB_step oor tb (OpTimeUntilAvailable n, now) = tb"

datatype rl_op =
    RlHasCapacity int64
  | RlTryConsume int64
  | RlCanProceed int64
  | RlConsume int64
  | RlWait int64
  | RlTimeUntilAvailable int64
  | RlWaitAndConsume "Duration \<Rightarrow> string option" int64 Duration

fun RL_step :: "(f64 \<Rightarrow> int64) \<Rightarrow> RateLimiter \<Rightarrow> rl_op \<times> (nat \<Rightarrow> Time) \<Rightarrow> RateLimiter" where
  "RL_step oor rl (RlHasCapacity n, c) = rl"
| "RL_step oor rl (RlTryConsume n, c) = fst (RL_TryConsume rl n (c 0) (c 1))"
| "RL_step oor rl (RlCanProceed n, c) = fst (RL_CanProceed rl n (c 0) (c 1))"
| "RL_step oor rl (RlConsume n, c) = fst (RL_Consume rl n (c 0) (c 1))"
| "RL_step oor rl (RlWait n, c) = fst (RL_Wait oor rl n (c 0))"
| "RL_step oor rl (RlTimeUntilAvailable n, c) = rl"
| "RL_step oor rl (RlWaitAndConsume ctx n maxWait, c) =
     fst (RL_WaitAndConsume oor rl ctx n maxWait c)"

text \<open>
  The invariant of a bucket, and the steps whose consumed amount is not negative (the
  amount of a \<^verbatim>\<open>Wait\<close>, \<^verbatim>\<open>HasCapacity\<close> or \<^verbatim>\<open>TimeUntilAvailable\<close> is free:
  they consume nothing).
\<close>

definition bucketInv :: "TokenBucket \<Rightarrow> bool" where
  "bucketInv tb \<longleftrightarrow> 0 \<le>s remaining tb \<and> remaining tb \<le>s capacity tb"

fun nonnegAmount :: "tb_op \<times> Time \<Rightarrow> bool" where
  "nonnegAmount (OpConsume n, now) = (0 \<le>s n)"
| "nonnegAmount (OpTryConsume n, now) = (0 \<le>s n)"
| "nonnegAmount (opn, now) = True"

section \<open>Token estimator\<close>

text \<open>
  \<^verbatim>\<open>SimpleTokenEstimator.EstimateTokens\<close>.  A prompt is modelled by its sequence of
  runes, one \<open>char\<close> each: the estimator looks only at whether the text is empty and at
  \<^verbatim>\<open>len([]rune(text))\<close>.  The literal \<^verbatim>\<open>1.2\<close> is the double nearest to 6/5.
\<close>

record SimpleTokenEstimator =
  SafetyMargin :: f64

definition NewSimpleTokenEstimator :: SimpleTokenEstimator where
  "NewSimpleTokenEstimator = \<lparr>SafetyMargin = Fin (round_f64 (6 / 5))\<rparr>"

definition EstimateTokens :: "(f64 \<Rightarrow> int64) \<Rightarrow> SimpleTokenEstimator \<Rightarrow> string \<Rightarrow> int64" where
  "EstimateTokens oor e text =
     (if text = [] then 0
      else
        let charCount = (word_of_nat (length text) :: int64);
            tokenEstimate = fdiv (f64_of_int64 charCount) (Fin 4);
            tokenEstimate2 = fmul tokenEstimate (SafetyMargin e)
        in int64_of_f64 oor (fceil tokenEstimate2) + 3)"

section \<open>Requests, results and backends\<close>

text \<open>
  The fields of \<^verbatim>\<open>GenerateConfig\<close> that the router reads or rewrites, and the plain
  request parameters; \<^verbatim>\<open>Temperature\<close>, \<^verbatim>\<open>SafetySettings\<close> and \<^verbatim>\<open>Metadata\<close> are
  passed through untouched and left out.  A \<^verbatim>\<open>*GenerateConfig\<close> that may be nil is a
  \<open>GenerateConfig option\<close>.
\<close>

type_synonym Model = string
type_synonym Provider = string

definition ModelNanoBanana2 :: Model where
  "ModelNanoBanana2 = ''nano-banana-2''"

definition ModelDefault :: Model where
  "ModelDefault = ModelNanoBanana2"

record GenerateConfig =
  Model :: Model
  Size :: string
  AspectRatio :: string
  NumberOfImages :: int64
  EnableGrounding :: bool
  EnableThinking :: bool
  WaitOnRateLimit :: bool
  MaxWaitDuration :: Duration

definition DefaultConfig :: GenerateConfig where
  "DefaultConfig =
     \<lparr>Model = ModelDefault, Size = ''2K'', AspectRatio = [], NumberOfImages = 1,
      EnableGrounding = False, EnableThinking = False, WaitOnRateLimit = False,
      MaxWaitDuration = 0\<rparr>"

record InputImage =
  in_Data :: "8 word list"
  in_MIMEType :: string
  in_URI :: string

record GeneratedImage =
  Data :: "8 word list"
  MIMEType :: string
  Index :: int64
  RevisedPrompt :: string

record GenerateResult =
  Images :: "GeneratedImage list"
  Text :: string
  ThinkingContent :: string

record ConversationTurn =
  Role :: string
  turnText :: string
  turnImages :: "GeneratedImage list"

text \<open>
  A backend (\<^verbatim>\<open>ImageGenerator\<close>) is outside the program.  The calls made to it are
  recorded in a list; its answer to a stateless call is the function \<open>reply\<close> of the
  calls so far and the call.  A backend that also implements
  \<^verbatim>\<open>ConversationalImageGenerator\<close> has \<open>startConversation = Some s\<close>, where the
  native session \<open>s\<close> carries its state and its own \<^verbatim>\<open>Send\<close> and \<^verbatim>\<open>History\<close>.
\<close>

datatype backend_call =
    CallGenerate string GenerateConfig
  | CallEdit InputImage string GenerateConfig
  | CallEditMultiple "InputImage list" string GenerateConfig
  | CallStartConversation
  | CallSessionSend string "InputImage list" GenerateConfig

record 's session =
  sess_state :: 's
  sess_send :: "'s \<Rightarrow> string \<Rightarrow> InputImage list \<Rightarrow> GenerateConfig \<Rightarrow> 's \<times> (error + GenerateResult)"
  sess_history :: "'s \<Rightarrow> ConversationTurn list"

record 's backend =
  reply :: "(Provider \<times> backend_call) list \<Rightarrow> backend_call \<Rightarrow> error + GenerateResult"
  startConversation :: "'s session option"

record ModelMapping =
  Provider :: Provider
  ActualModelName :: string

section \<open>Router\<close>

text \<open>
  \<^verbatim>\<open>Manager\<close>: the tables the dispatch reads.  A limiter is shared by pointer through
  \<^verbatim>\<open>rateLimiters\<close>; a call that changes the limiter of a model returns the manager with
  that entry updated.  Logging is observation only and is left out.
\<close>

record 's Manager =
  modelMappings :: "Model \<rightharpoonup> ModelMapping"
  providers :: "Provider \<rightharpoonup> 's backend"
  defaultModel :: Model
  rateLimiters :: "Model \<rightharpoonup> RateLimiter"
  tokenEstimator :: SimpleTokenEstimator

definition resolveModel :: "'s Manager \<Rightarrow> GenerateConfig option \<Rightarrow> Model" where
  "resolveModel m config =
     (let model = (case config of
                     None \<Rightarrow> ModelDefault
                   | Some cfg \<Rightarrow> if Model cfg \<noteq> [] then Model cfg else ModelDefault)
      in if model = ModelDefault then defaultModel m else model)"

definition getProvider :: "'s Manager \<Rightarrow> Provider \<Rightarrow> error + 's backend" where
  "getProvider m provider =
     (case providers m provider of
        None \<Rightarrow> Inl (ErrProviderNotConfigured provider)
      | Some gen \<Rightarrow> Inr gen)"

definition getGeneratorForConfig ::
    "'s Manager \<Rightarrow> GenerateConfig option \<Rightarrow> error + ('s backend \<times> Provider \<times> GenerateConfig)" where
  "getGeneratorForConfig m config =
     (let model = resolveModel m config in
      case modelMappings m model of
        None \<Rightarrow> Inl (ErrModelNotRegistered model)
      | Some mapping \<Rightarrow>
          (case getProvider m (Provider mapping) of
             Inl err \<Rightarrow> Inl err
           | Inr gen \<Rightarrow>
               (let actualConfig = (case config of None \<Rightarrow> DefaultConfig | Some cfg \<Rightarrow> cfg)
                in Inr (gen, Provider mapping,
                        actualConfig\<lparr>Model := ActualModelName mapping\<rparr>))))"

definition tokenBuffer :: int64 where
  "tokenBuffer = 100"

definition checkRateLimit ::
    "(f64 \<Rightarrow> int64) \<Rightarrow> 's Manager \<Rightarrow> (Duration \<Rightarrow> string option) \<Rightarrow> (nat \<Rightarrow> Time) \<Rightarrow> Model
       \<Rightarrow> GenerateConfig \<Rightarrow> string \<Rightarrow> 's Manager \<times> error option" where
  "checkRateLimit oor m ctx c model config prompt =
     (case rateLimiters m model of
        None \<Rightarrow> (m, None)
      | Some limiter \<Rightarrow>
          (let estimatedTokens = EstimateTokens oor (tokenEstimator m) prompt + tokenBuffer in
           if WaitOnRateLimit config then
             (case RL_WaitAndConsume oor limiter ctx estimatedTokens (MaxWaitDuration config) c of
                (limiter', err, sl) \<Rightarrow> (m\<lparr>rateLimiters := (rateLimiters m)(model \<mapsto> limiter')\<rparr>, err))
           else
             (case RL_TryConsume limiter estimatedTokens (c 0) (c 1) of
                (limiter', True) \<Rightarrow> (m\<lparr>rateLimiters := (rateLimiters m)(model \<mapsto> limiter')\<rparr>, None)
              | (limiter', False) \<Rightarrow>
                  (m\<lparr>rateLimiters := (rateLimiters m)(model \<mapsto> limiter')\<rparr>,
                   Some (RateLimitError
                           (RL_TimeUntilAvailable oor limiter' estimatedTokens (c 2) (c 3))
                           ''tokens'' model)))))"

text \<open>
  \<^verbatim>\<open>Manager.Generate\<close> returns the manager with its limiter updated, the list of backend calls and
  the result or error.
\<close>

definition Generate ::
    "(f64 \<Rightarrow> int64) \<Rightarrow> 's Manager \<Rightarrow> (Duration \<Rightarrow> string option) \<Rightarrow> (nat \<Rightarrow> Time)
       \<Rightarrow> (Provider \<times> backend_call) list \<Rightarrow> string \<Rightarrow> GenerateConfig option
       \<Rightarrow> 's Manager \<times> (Provider \<times> backend_call) list \<times> (error + GenerateResult)" where
  "Generate oor m ctx c calls prompt config0 =
     (let config = (case config0 of None \<Rightarrow> DefaultConfig | Some cfg \<Rightarrow> cfg);
          model = resolveModel m (Some config)
      in case checkRateLimit oor m ctx c model config prompt of
           (m', Some err) \<Rightarrow> (m', calls, Inl err)
         | (m', None) \<Rightarrow>
             (case getGeneratorForConfig m' (Some config) of
                Inl err \<Rightarrow> (m', calls, Inl err)
              | Inr (gen, p, actualConfig) \<Rightarrow>
                  (m', calls @ [(p, CallGenerate prompt actualConfig)],
                   reply gen calls (CallGenerate prompt actualConfig))))"

section \<open>Conversation\<close>

record 's ManagedConversation =
  history :: "ConversationTurn list"
  lockedModel :: Model
  modelLocked :: bool
  providerConv :: "'s session option"
  convProvider :: Provider

definition StartConversation :: "'s ManagedConversation" where
  "StartConversation =
     \<lparr>history = [], lockedModel = [], modelLocked = False, providerConv = None,
      convProvider = []\<rparr>"

definition StartConversationWithModel :: "Model \<Rightarrow> 's ManagedConversation" where
  "StartConversationWithModel model =
     \<lparr>history = [], lockedModel = model, modelLocked = True, providerConv = None,
      convProvider = []\<rparr>"

definition userTurnOf :: "string \<Rightarrow> InputImage list \<Rightarrow> ConversationTurn" where
  "userTurnOf prompt images =
     \<lparr>Role = ''user'', turnText = prompt,
      turnImages =
        map (\<lambda>img. \<lparr>Data = in_Data img, MIMEType = in_MIMEType img, Index = 0,
                     RevisedPrompt = []\<rparr>) images\<rparr>"

definition modelTurnOf :: "GenerateResult \<Rightarrow> ConversationTurn" where
  "modelTurnOf result = \<lparr>Role = ''model'', turnText = Text result, turnImages = Images result\<rparr>"

text \<open>The forwarding of a turn to a native session, shared by the two session branches.\<close>

definition sendToSession ::
    "'s ManagedConversation \<Rightarrow> 's session \<Rightarrow> Provider \<Rightarrow> (Provider \<times> backend_call) list
       \<Rightarrow> string \<Rightarrow> InputImage list \<Rightarrow> GenerateConfig
       \<Rightarrow> 's ManagedConversation \<times> (Provider \<times> backend_call) list \<times> (error + GenerateResult)" where
  "sendToSession conv sess p calls prompt images configCopy =
     (case sess_send sess (sess_state sess) prompt images configCopy of
        (st', Inl err) \<Rightarrow>
          (conv\<lparr>providerConv := Some (sess\<lparr>sess_state := st'\<rparr>)\<rparr>,
           calls @ [(p, CallSessionSend prompt images configCopy)], Inl err)
      | (st', Inr result) \<Rightarrow>
          (conv\<lparr>providerConv := Some (sess\<lparr>sess_state := st'\<rparr>),
                history := sess_history sess st'\<rparr>,
           calls @ [(p, CallSessionSend prompt images configCopy)], Inr result))"

text \<open>
  No session to continue: take the provider instance; start and bind a native session if
  the backend has them; otherwise one stateless call and two turns appended by hand.
\<close>

definition sendFresh ::
    "'s Manager \<Rightarrow> 's ManagedConversation \<Rightarrow> ModelMapping \<Rightarrow> (Provider \<times> backend_call) list
       \<Rightarrow> string \<Rightarrow> InputImage list \<Rightarrow> GenerateConfig
       \<Rightarrow> 's ManagedConversation \<times> (Provider \<times> backend_call) list \<times> (error + GenerateResult)" where
  "sendFresh m conv mapping calls prompt images configCopy =
     (case getProvider m (Provider mapping) of
        Inl err \<Rightarrow> (conv, calls, Inl err)
      | Inr gen \<Rightarrow>
          (case startConversation gen of
             Some sess \<Rightarrow>
               sendToSession (conv\<lparr>providerConv := Some sess, convProvider := Provider mapping\<rparr>)
                 sess (Provider mapping) (calls @ [(Provider mapping, CallStartConversation)])
                 prompt images configCopy
           | None \<Rightarrow>
               (let call = (if images \<noteq> [] then CallEditMultiple images prompt configCopy
                            else CallGenerate prompt configCopy)
                in case reply gen calls call of
                     Inl err \<Rightarrow> (conv, calls @ [(Provider mapping, call)], Inl err)
                   | Inr result \<Rightarrow>
                       (conv\<lparr>history :=
                               history conv @ [userTurnOf prompt images, modelTurnOf result]\<rparr>,
                        calls @ [(Provider mapping, call)], Inr result))))"

text \<open>The model of a turn: the locked model, else the config's, else the router's default.\<close>

definition conversationModel ::
    "'s Manager \<Rightarrow> 's ManagedConversation \<Rightarrow> GenerateConfig option \<Rightarrow> Model" where
  "conversationModel m conv config =
     (if modelLocked conv then lockedModel conv
      else case config of
             Some cfg \<Rightarrow> if Model cfg \<noteq> [] then Model cfg else defaultModel m
           | None \<Rightarrow> defaultModel m)"

definition Send ::
    "'s Manager \<Rightarrow> 's ManagedConversation \<Rightarrow> (Provider \<times> backend_call) list \<Rightarrow> string
       \<Rightarrow> InputImage list \<Rightarrow> GenerateConfig option
       \<Rightarrow> 's ManagedConversation \<times> (Provider \<times> backend_call) list \<times> (error + GenerateResult)" where
  "Send m conv calls prompt images config =
     (let model = conversationModel m conv config
      in case modelMappings m model of
           None \<Rightarrow> (conv, calls, Inl (ErrModelNotRegistered model))
         | Some mapping \<Rightarrow>
             (let configCopy =
                    (case config of None \<Rightarrow> DefaultConfig | Some cfg \<Rightarrow> cfg)
                      \<lparr>Model := ActualModelName mapping\<rparr>
              in case providerConv conv of
                   Some sess \<Rightarrow>
                     if convProvider conv = Provider mapping
                     then sendToSession conv sess (Provider mapping) calls prompt images configCopy
                     else sendFresh m conv mapping calls prompt images configCopy
                 | None \<Rightarrow> sendFresh m conv mapping calls prompt images configCopy))"

text \<open>
  The manager of the package's rate-limit test: one model \<^verbatim>\<open>"test-model"\<close> served by
  \<^verbatim>\<open>"test-provider"\<close> under the name \<^verbatim>\<open>"test-model-api"\<close>, a backend without native
  sessions that answers every call with a fixed result, and a limiter of \<open>tpm\<close> tokens
  and 10 requests a minute created at clock reading 0.
\<close>

definition testManager :: "int64 \<Rightarrow> unit Manager" where
  "testManager tpm =
     \<lparr>modelMappings =
        [''test-model'' \<mapsto> \<lparr>Provider = ''test-provider'', ActualModelName = ''test-model-api''\<rparr>],
      providers =
        [''test-provider'' \<mapsto>
           \<lparr>reply = \<lambda>cs call. Inr \<lparr>Images = [], Text = ''ok'', ThinkingContent = []\<rparr>,
            startConversation = None\<rparr>],
      defaultModel = ModelDefault,
      rateLimiters =
        [''test-model'' \<mapsto> NewLimiter \<lparr>TokensPerMinute = tpm, RequestsPerMinute = 10\<rparr> 0 0],
      tokenEstimator = NewSimpleTokenEstimator\<rparr>"

text \<open>
  A client that sends a list of turns on one conversation, each of which must succeed:
  a request is the prompt, the input images and the config of one \<^verbatim>\<open>Send\<close>.
\<close>

type_synonym request = "string \<times> InputImage list \<times> GenerateConfig option"

fun sendAll ::
    "'s Manager \<Rightarrow> 's ManagedConversation \<Rightarrow> (Provider \<times> backend_call) list \<Rightarrow> request list
       \<Rightarrow> ('s ManagedConversation \<times> (Provider \<times> backend_call) list) option" where
  "sendAll m conv calls [] = Some (conv, calls)"
| "sendAll m conv calls ((prompt, images, config) # rs) =
     (case Send m conv calls prompt images config of
        (conv', calls', Inr result) \<Rightarrow> sendAll m conv' calls' rs
      | (conv', calls', Inl err) \<Rightarrow> None)"

text \<open>
  The backend instance a turn resolves to, and the condition that it has no native
  sessions.
\<close>

definition resolvedBackend ::
    "'s Manager \<Rightarrow> 's ManagedConversation \<Rightarrow> GenerateConfig option \<Rightarrow> 's backend option" where
  "resolvedBackend m conv config =
     (case modelMappings m (conversationModel m conv config) of
        None \<Rightarrow> None
      | Some mapping \<Rightarrow> providers m (Provider mapping))"

fun noNativeSession :: "'s Manager \<Rightarrow> 's ManagedConversation \<Rightarrow> request \<Rightarrow> bool" where
  "noNativeSession m conv (prompt, images, config) =
     (case resolvedBackend m conv config of
        None \<Rightarrow> True
      | Some gen \<Rightarrow> startConversation gen = None)"

text \<open>
  A stateless call for a request: \<^verbatim>\<open>EditMultiple\<close> with the request's images and
  prompt when there are images, \<^verbatim>\<open>Generate\<close> with the prompt when there are none.
\<close>

fun isStatelessCall :: "request \<Rightarrow> Provider \<times> backend_call \<Rightarrow> bool" where
  "isStatelessCall (prompt, images, config) (p, CallGenerate pr cfg) =
     (images = [] \<and> pr = prompt)"
| "isStatelessCall (prompt, images, config) (p, CallEditMultiple imgs pr cfg) =
     (images \<noteq> [] \<and> imgs = images \<and> pr = prompt)"
| "isStatelessCall r (p, call) = False"

text \<open>A history made of (user, model) pairs.\<close>

fun alternating :: "ConversationTurn list \<Rightarrow> bool" where
  "alternating [] = True"
| "alternating [t] = False"
| "alternating (u # v # ts) = (Role u = ''user'' \<and> Role v = ''model'' \<and> alternating ts)"

section \<open>History and the memory it shares\<close>

text \<open>
  \<^verbatim>\<open>History()\<close> is about aliasing, so here the history is in a store.  A slice is a
  window (\<open>off\<close>, \<open>len\<close>) on a backing array at an address; the store maps addresses
  to arrays of bytes, of images and of turns, and \<open>next\<close> is the first address never
  allocated.  A \<^verbatim>\<open>GeneratedImage\<close> in memory holds the slice header of its
  \<^verbatim>\<open>Data\<close>, a \<^verbatim>\<open>ConversationTurn\<close> the slice header of its \<^verbatim>\<open>Images\<close>.
  \<open>read_history\<close> follows the headers and gives the history as the values of the
  earlier sections.
\<close>

type_synonym addr = nat

record slice =
  base :: addr
  off :: nat
  len :: nat

record image_cell =
  cell_Data :: slice
  cell_MIMEType :: string
  cell_Index :: int64
  cell_RevisedPrompt :: string

record turn_cell =
  cell_Role :: string
  cell_Text :: string
  cell_Images :: slice

record store =
  byte_arrays :: "addr \<Rightarrow> 8 word list"
  image_arrays :: "addr \<Rightarrow> image_cell list"
  turn_arrays :: "addr \<Rightarrow> turn_cell list"
  next_addr :: addr

definition window :: "slice \<Rightarrow> 'a list \<Rightarrow> 'a list" where
  "window s xs = take (len s) (drop (off s) xs)"

definition read_image :: "store \<Rightarrow> image_cell \<Rightarrow> GeneratedImage" where
  "read_image h c =
     \<lparr>Data = window (cell_Data c) (byte_arrays h (base (cell_Data c))),
      MIMEType = cell_MIMEType c, Index = cell_Index c, RevisedPrompt = cell_RevisedPrompt c\<rparr>"

definition read_turn :: "store \<Rightarrow> turn_cell \<Rightarrow> ConversationTurn" where
  "read_turn h c =
     \<lparr>Role = cell_Role c, turnText = cell_Text c,
      turnImages =
        map (read_image h) (window (cell_Images c) (image_arrays h (base (cell_Images c))))\<rparr>"

definition read_history :: "store \<Rightarrow> slice \<Rightarrow> ConversationTurn list" where
  "read_history h s = map (read_turn h) (window s (turn_arrays h (base s)))"

text \<open>
  \<^verbatim>\<open>historyCopy := make([]ConversationTurn, len(c.history)); copy(historyCopy, c.history)\<close>:
  a new array of turns at a fresh address, holding the turn structs of the history, slice
  headers included.  The same body serves \<^verbatim>\<open>ManagedConversation.History\<close> and
  \<^verbatim>\<open>GeminiConversation.History\<close>.
\<close>

definition History :: "store \<Rightarrow> slice \<Rightarrow> store \<times> slice" where
  "History h hist =
     (let a = next_addr h;
          historyCopy = window hist (turn_arrays h (base hist))
      in (h\<lparr>turn_arrays := (turn_arrays h)(a := historyCopy), next_addr := Suc a\<rparr>,
          \<lparr>base = a, off = 0, len = len hist\<rparr>))"

text \<open>
  What a caller can write through a slice of turns \<open>r\<close> it holds: an element
  (\<^verbatim>\<open>r[i] = t\<close>), an element of a turn's images (\<^verbatim>\<open>r[i].Images[j] = img\<close>), a byte
  of an image (\<^verbatim>\<open>r[i].Images[j].Data[k] = b\<close>).  An index out of range panics
  (\<open>None\<close>).
\<close>

datatype mutation =
    SetTurn nat turn_cell
  | SetImage nat nat image_cell
  | SetByte nat nat nat "8 word"

fun mutate :: "store \<Rightarrow> slice \<Rightarrow> mutation \<Rightarrow> store option" where
  "mutate h r (SetTurn i t) =
     (if i < len r
      then Some (h\<lparr>turn_arrays :=
                     (turn_arrays h)(base r := (turn_arrays h (base r))[off r + i := t])\<rparr>)
      else None)"
| "mutate h r (SetImage i j img) =
     (if i < len r then
        (let s = cell_Images (turn_arrays h (base r) ! (off r + i)) in
         if j < len s
         then Some (h\<lparr>image_arrays :=
                        (image_arrays h)(base s := (image_arrays h (base s))[off s + j := img])\<rparr>)
         else None)
      else None)"
| "mutate h r (SetByte i j k b) =
     (if i < len r then
        (let s = cell_Images (turn_arrays h (base r) ! (off r + i)) in
         if j < len s then
           (let d = cell_Data (image_arrays h (base s) ! (off s + j)) in
            if k < len d
            then Some (h\<lparr>byte_arrays :=
                           (byte_arrays h)(base d := (byte_arrays h (base d))[off d + k := b])\<rparr>)
            else None)
         else None)
      else None)"

text \<open>
  A store holding the history of one stateless exchange: a user turn without images and
  the model's turn with one image of three bytes.  The bytes are at address 0, the model
  turn's image array at 1, the history's turn array at 2.
\<close>

definition exampleStore :: store where
  "exampleStore =
     \<lparr>byte_arrays = (\<lambda>a. [])(0 := [1, 2, 3]),
      image_arrays =
        (\<lambda>a. [])(1 := [\<lparr>cell_Data = \<lparr>base = 0, off = 0, len = 3\<rparr>,
                          cell_MIMEType = ''image/png'', cell_Index = 0,
                          cell_RevisedPrompt = []\<rparr>]),
      turn_arrays =
        (\<lambda>a. [])(2 := [\<lparr>cell_Role = ''user'', cell_Text = ''a cat'',
                          cell_Images = \<lparr>base = 0, off = 0, len = 0\<rparr>\<rparr>,
                         \<lparr>cell_Role = ''model'', cell_Text = ''ok'',
                          cell_Images = \<lparr>base = 1, off = 0, len = 1\<rparr>\<rparr>]),
      next_addr = 3\<rparr>"

definition exampleHistory :: slice where
  "exampleHistory = \<lparr>base = 2, off = 0, len = 2\<rparr>"

section \<open>Properties of the token bucket\<close>

lemma TB_Consume_ok:
  "TB_HasCapacity tb n now \<Longrightarrow>
   TB_Consume tb n now =
     ((refill tb now)\<lparr>remaining := remaining (refill tb now) - n\<rparr>, True)"
  by (cases "refillDue tb now") (simp_all add: TB_HasCapacity_def TB_Consume_def refill_def)

lemma TB_Consume_fail:
  "\<not> TB_HasCapacity tb n now \<Longrightarrow> TB_Consume tb n now = (refill tb now, False)"
  by (cases "refillDue tb now") (simp_all add: TB_HasCapacity_def TB_Consume_def refill_def)

lemma refill_not_due: "\<not> refillDue tb now \<Longrightarrow> refill tb now = tb"
  by (simp add: refill_def)

text \<open>
  C4.  A full bucket within its refill interval: every \<open>n \<le> capacity\<close> is consumed and
  leaves \<open>capacity - n\<close>; \<open>capacity + 1\<close> (when that number exists as an int) is refused
  and the bucket is left exactly as it was.
\<close>

theorem C4_full_bucket_consume:
  assumes full: "remaining tb = capacity tb"
    and within: "\<not> refillDue tb now"
  shows "(n \<le>s capacity tb \<longrightarrow>
            TB_TryConsume tb n now = (tb\<lparr>remaining := capacity tb - n\<rparr>, True))
       \<and> (capacity tb <s capacity tb + 1 \<longrightarrow>
            TB_TryConsume tb (capacity tb + 1) now = (tb, False)
            \<and> remaining (fst (TB_TryConsume tb (capacity tb + 1) now)) = capacity tb)"
proof -
  have r: "refill tb now = tb"
    using within by (rule refill_not_due)
  have a: "TB_TryConsume tb n now = (tb\<lparr>remaining := capacity tb - n\<rparr>, True)"
    if "n \<le>s capacity tb"
    using that full r by (simp add: TB_TryConsume_def TB_Consume_def)
  have b: "TB_TryConsume tb (capacity tb + 1) now = (tb, False)"
    if "capacity tb <s capacity tb + 1"
  proof -
    from that have "\<not> capacity tb + 1 \<le>s remaining tb"
      using full by (simp add: word_sle_eq word_sless_alt)
    then show ?thesis
      using r by (simp add: TB_TryConsume_def TB_Consume_def)
  qed
  show ?thesis
    using a b full by simp
qed

theorem C4_full_bucket_consume_witness:
  "TB_TryConsume (NewTokenBucket 10 10 Minute 0) 4 1000
     = (\<lparr>capacity = 10, remaining = 6, refillInterval = Minute, lastRefill = 0\<rparr>, True)
   \<and> TB_TryConsume (NewTokenBucket 10 10 Minute 0) 11 1000
     = (NewTokenBucket 10 10 Minute 0, False)"
proof -
  let ?tb = "NewTokenBucket 10 10 Minute 0"
  have full: "remaining ?tb = capacity ?tb"
    by (simp add: NewTokenBucket_def)
  have within: "\<not> refillDue ?tb 1000"
    by (simp add: NewTokenBucket_def refillDue_def Sub_def Minute_def maxDuration_def
        minDuration_def word_sle_eq)
  have le: "(4 :: int64) \<le>s capacity ?tb"
    by (simp add: NewTokenBucket_def word_sle_eq)
  have lt: "capacity ?tb <s capacity ?tb + 1"
    by (simp add: NewTokenBucket_def word_sless_alt)
  from C4_full_bucket_consume [OF full within, of 4] le lt show ?thesis
    by (simp add: NewTokenBucket_def)
qed

section \<open>Properties of the composite limiter\<close>

lemma RL_TryConsume_token_ok_request_fail:
  assumes tok: "TB_HasCapacity (TokensBucket rl) n t1"
    and req: "\<not> TB_HasCapacity (RequestsBucket rl) 1 t2"
  shows "RL_TryConsume rl n t1 t2 =
           (rl\<lparr>TokensBucket :=
                 (refill (TokensBucket rl) t1)
                   \<lparr>remaining := remaining (refill (TokensBucket rl) t1) - n\<rparr>,
               RequestsBucket := refill (RequestsBucket rl) t2\<rparr>,
            False)"
  using TB_Consume_ok [OF tok] TB_Consume_fail [OF req]
  by (simp add: RL_TryConsume_def TB_TryConsume_def)

text \<open>
  C1 as stated fails in its last part: a request bucket that cannot supply 1 even after a
  due refill (capacity below 1) still runs the refill step of \<^verbatim>\<open>Consume\<close>, which
  writes \<^verbatim>\<open>lastRefill\<close>.  A limiter built with \<^verbatim>\<open>RequestsPerMinute = 0\<close> at time
  0 and asked for 10 tokens one minute later: the token bucket can supply 10, the request
  bucket cannot supply 1, and the request bucket is not the one before the call.
\<close>

theorem C1_request_bucket_counterexample:
  "TB_HasCapacity
     (TokensBucket (NewLimiter \<lparr>TokensPerMinute = 100, RequestsPerMinute = 0\<rparr> 0 0))
     10 60000000000
   \<and> \<not> TB_HasCapacity
     (RequestsBucket (NewLimiter \<lparr>TokensPerMinute = 100, RequestsPerMinute = 0\<rparr> 0 0))
     1 60000000000
   \<and> RequestsBucket
       (fst (RL_TryConsume (NewLimiter \<lparr>TokensPerMinute = 100, RequestsPerMinute = 0\<rparr> 0 0)
          10 60000000000 60000000000))
     \<noteq> RequestsBucket (NewLimiter \<lparr>TokensPerMinute = 100, RequestsPerMinute = 0\<rparr> 0 0)"
  by (simp add: NewLimiter_def NewTokenBucket_def RL_TryConsume_def TB_TryConsume_def
      TB_Consume_def TB_HasCapacity_def refill_def refillDue_def Sub_def Minute_def
      maxDuration_def minDuration_def word_sle_eq)

text \<open>
  C1, amended.  When the token bucket can supply \<open>n\<close> (at the clock reading of its
  consume) and the request bucket cannot supply 1 (at the reading of its own),
  \<^verbatim>\<open>TryConsume(n)\<close> returns false; the token bucket keeps the deduction: its remaining
  is the amount available at that moment (capacity if a refill was due, else the stored
  remaining) minus \<open>n\<close>; the request bucket has only gone through the refill-if-due step,
  and is exactly the bucket before the call when no refill was due.
\<close>

theorem C1_asymmetric_commit:
  assumes tok: "TB_HasCapacity (TokensBucket rl) n t1"
    and req: "\<not> TB_HasCapacity (RequestsBucket rl) 1 t2"
  shows "snd (RL_TryConsume rl n t1 t2) = False
       \<and> remaining (TokensBucket (fst (RL_TryConsume rl n t1 t2)))
           = (if refillDue (TokensBucket rl) t1 then capacity (TokensBucket rl)
              else remaining (TokensBucket rl)) - n
       \<and> RequestsBucket (fst (RL_TryConsume rl n t1 t2)) = refill (RequestsBucket rl) t2
       \<and> (\<not> refillDue (RequestsBucket rl) t2 \<longrightarrow>
            RequestsBucket (fst (RL_TryConsume rl n t1 t2)) = RequestsBucket rl)"
proof -
  note eq = RL_TryConsume_token_ok_request_fail [OF tok req]
  have "remaining (refill (TokensBucket rl) t1)
          = (if refillDue (TokensBucket rl) t1 then capacity (TokensBucket rl)
             else remaining (TokensBucket rl))"
    by (simp add: refill_def)
  then show ?thesis
    using eq by (simp add: refill_not_due)
qed

theorem C1_asymmetric_commit_witness:
  "snd (RL_TryConsume
      \<lparr>TokensBucket = NewTokenBucket 100 100 Minute 0,
       RequestsBucket = NewTokenBucket 10 0 Minute 0\<rparr> 30 5 6) = False
   \<and> remaining (TokensBucket (fst (RL_TryConsume
      \<lparr>TokensBucket = NewTokenBucket 100 100 Minute 0,
       RequestsBucket = NewTokenBucket 10 0 Minute 0\<rparr> 30 5 6))) = 70
   \<and> RequestsBucket (fst (RL_TryConsume
      \<lparr>TokensBucket = NewTokenBucket 100 100 Minute 0,
       RequestsBucket = NewTokenBucket 10 0 Minute 0\<rparr> 30 5 6))
     = NewTokenBucket 10 0 Minute 0"
proof -
  let ?rl = "\<lparr>TokensBucket = NewTokenBucket 100 100 Minute 0,
              RequestsBucket = NewTokenBucket 10 0 Minute 0\<rparr>"
  have nd1: "\<not> refillDue (TokensBucket ?rl) 5"
    by (simp add: NewTokenBucket_def refillDue_def Sub_def Minute_def maxDuration_def
        minDuration_def word_sle_eq)
  have nd2: "\<not> refillDue (RequestsBucket ?rl) 6"
    by (simp add: NewTokenBucket_def refillDue_def Sub_def Minute_def maxDuration_def
        minDuration_def word_sle_eq)
  have tok: "TB_HasCapacity (TokensBucket ?rl) 30 5"
    using nd1 by (simp add: TB_HasCapacity_def NewTokenBucket_def word_sle_eq)
  have req: "\<not> TB_HasCapacity (RequestsBucket ?rl) 1 6"
    using nd2 by (simp add: TB_HasCapacity_def NewTokenBucket_def word_sle_eq)
  from C1_asymmetric_commit [OF tok req] nd1 nd2 show ?thesis
    by (simp add: NewTokenBucket_def refill_def)
qed

section \<open>Model resolution\<close>

lemma resolveModel_explicit:
  "Model cfg \<noteq> [] \<Longrightarrow> Model cfg \<noteq> ModelDefault \<Longrightarrow> resolveModel m (Some cfg) = Model cfg"
  by (simp add: resolveModel_def)

lemma resolveModel_unset:
  "resolveModel m None = defaultModel m"
  "Model cfg = [] \<Longrightarrow> resolveModel m (Some cfg) = defaultModel m"
  by (simp_all add: resolveModel_def)

text \<open>
  C3.  The claim holds for every explicit model except the one it singles out: an explicit
  model equal to the package constant \<^verbatim>\<open>ModelDefault\<close> (\<^verbatim>\<open>"nano-banana-2"\<close>) is
  replaced by the router's configured default.  With the configured default set to
  \<^verbatim>\<open>"model-b"\<close>, a config that names \<^verbatim>\<open>"nano-banana-2"\<close> resolves to
  \<^verbatim>\<open>"model-b"\<close>.
\<close>

theorem C3_resolveModel_default_constant:
  "resolveModel (m\<lparr>defaultModel := ''model-b''\<rparr>) (Some (cfg\<lparr>Model := ''nano-banana-2''\<rparr>))
     = ''model-b''"
  by (simp add: resolveModel_def ModelDefault_def ModelNanoBanana2_def)

section \<open>A limiter without request capacity\<close>

definition noRequests :: "RateLimiter \<Rightarrow> bool" where
  "noRequests rl \<longleftrightarrow> capacity (RequestsBucket rl) = 0 \<and> remaining (RequestsBucket rl) = 0"

lemma refill_fields [simp]:
  "capacity (refill tb now) = capacity tb"
  "refillInterval (refill tb now) = refillInterval tb"
  by (simp_all add: refill_def)

lemma TB_Consume_empty:
  assumes "capacity tb = 0" "remaining tb = 0"
  shows "snd (TB_Consume tb 1 now) = False"
    and "capacity (fst (TB_Consume tb 1 now)) = 0"
    and "remaining (fst (TB_Consume tb 1 now)) = 0"
  using assms by (simp_all add: TB_Consume_def refill_def word_sle_eq)

lemma RL_TryConsume_noRequests:
  assumes "noRequests rl"
  shows "snd (RL_TryConsume rl n t1 t2) = False" and "noRequests (fst (RL_TryConsume rl n t1 t2))"
proof -
  obtain tb' ok where t: "TB_TryConsume (TokensBucket rl) n t1 = (tb', ok)"
    by (cases "TB_TryConsume (TokensBucket rl) n t1")
  obtain rb' ok' where r: "TB_TryConsume (RequestsBucket rl) 1 t2 = (rb', ok')"
    by (cases "TB_TryConsume (RequestsBucket rl) 1 t2")
  from assms have e: "capacity (RequestsBucket rl) = 0" "remaining (RequestsBucket rl) = 0"
    by (simp_all add: noRequests_def)
  from TB_Consume_empty [OF e, of t2] r
  have r': "ok' = False" "capacity rb' = 0" "remaining rb' = 0"
    by (simp_all add: TB_TryConsume_def)
  show "snd (RL_TryConsume rl n t1 t2) = False"
    using t r r' by (cases ok) (simp_all add: RL_TryConsume_def)
  show "noRequests (fst (RL_TryConsume rl n t1 t2))"
    using t r r' e by (cases ok) (simp_all add: RL_TryConsume_def noRequests_def)
qed

lemma RL_Wait_noRequests: "noRequests rl \<Longrightarrow> noRequests (fst (RL_Wait oor rl n now))"
  by (simp add: RL_Wait_def noRequests_def split: prod.splits)

lemma consumeAfterWait_eq:
  "consumeAfterWait rl n c sl
     = (fst (RL_TryConsume rl n (c 0) (c 1)),
        if snd (RL_TryConsume rl n (c 0) (c 1)) then None else Some ErrAcquireFailed, sl)"
  by (simp add: consumeAfterWait_def RL_CanProceed_def split: prod.splits)

lemma RL_WaitAndConsume_noRequests:
  assumes "noRequests rl"
  shows "noRequests (fst (RL_WaitAndConsume oor rl ctx n maxWait c))"
  using assms RL_TryConsume_noRequests(2) [OF assms, of n "c 0" "c 1"]
  by (simp add: RL_WaitAndConsume_def consumeAfterWait_eq Let_def split: option.splits)

lemma RL_step_noRequests: "noRequests rl \<Longrightarrow> noRequests (RL_step oor rl op)"
proof (cases op)
  case (Pair opn c)
  assume "noRequests rl"
  then show ?thesis
    unfolding Pair
    by (cases opn)
      (simp_all add: RL_TryConsume_noRequests RL_CanProceed_def RL_Consume_def
        RL_Wait_noRequests RL_WaitAndConsume_noRequests)
qed

lemma foldl_RL_step_noRequests:
  "noRequests rl \<Longrightarrow> noRequests (foldl (RL_step oor) rl ops)"
  by (induction ops arbitrary: rl) (simp_all add: RL_step_noRequests)

lemma NewLimiter_noRequests:
  "RequestsPerMinute config = 0 \<Longrightarrow> noRequests (NewLimiter config t1 t2)"
  by (simp add: noRequests_def NewLimiter_def NewTokenBucket_def)

text \<open>
  C10.  A limiter built from a configuration with \<^verbatim>\<open>RequestsPerMinute = 0\<close> rejects
  every request: after any sequence of limiter operations, at any clock readings,
  \<^verbatim>\<open>TryConsume(n)\<close> returns false, for every \<open>n\<close>.
\<close>

theorem C10_zero_requests_rejects_all:
  assumes "RequestsPerMinute config = 0"
  shows "snd (RL_TryConsume (foldl (RL_step oor) (NewLimiter config t0 t0') ops) n t1 t2) = False"
  by (rule RL_TryConsume_noRequests(1))
    (rule foldl_RL_step_noRequests, rule NewLimiter_noRequests, rule assms)

theorem C10_zero_requests_rejects_all_witness:
  "RequestsPerMinute \<lparr>TokensPerMinute = 100, RequestsPerMinute = 0\<rparr> = 0
   \<and> snd (RL_TryConsume
        (foldl (RL_step (\<lambda>x. 0)) (NewLimiter \<lparr>TokensPerMinute = 100, RequestsPerMinute = 0\<rparr> 0 0)
           [(RlTryConsume 5, \<lambda>k. 10), (RlWait 3, \<lambda>k. 90000000000)])
        1 120000000000 120000000000) = False"
proof -
  have h: "RequestsPerMinute \<lparr>TokensPerMinute = 100, RequestsPerMinute = 0\<rparr> = 0"
    by simp
  from C10_zero_requests_rejects_all [OF h] h show ?thesis
    by blast
qed

section \<open>Evaluating float64 operations\<close>

lemma fdiv_Fin:
  "x \<noteq> 0 \<Longrightarrow> y \<noteq> 0 \<Longrightarrow> fdiv (Fin x) (Fin y) = Fin (round_f64 (x / y))"
  by (simp add: fdiv_def)

lemma fmul_Fin:
  "x \<noteq> 0 \<Longrightarrow> y \<noteq> 0 \<Longrightarrow> fmul (Fin x) (Fin y) = Fin (round_f64 (x * y))"
  by (simp add: fmul_def)

lemmas round_eval = round_f64_def ilog2_def rne_def pow2_def Let_def

lemmas clock_eval = Sub_def Minute_def maxDuration_def minDuration_def word_sle_eq word_sless_alt

lemma f64_of_int64_1: "f64_of_int64 1 = Fin 1"
  by (simp add: f64_of_int64_def round_eval)

lemma f64_of_int64_60: "f64_of_int64 60 = Fin 60"
  by (simp add: f64_of_int64_def round_eval)

lemma f64_of_int64_Minute: "f64_of_int64 Minute = Fin 60000000000"
  by (simp add: f64_of_int64_def Minute_def round_eval)

lemma round_f64_nano: "round_f64 (1 / 1000000000) = 4835703278458517 / 4835703278458516698824704"
  by (simp add: round_eval)

lemma round_f64_giga:
  "round_f64 (4835703278458516698824704 / 4835703278458517) = 8388607999999999 / 8388608"
  by (simp add: round_eval)

text \<open>
  The bucket of the package's own wait test: 60 tokens a minute, all consumed.  The rate
  is the double nearest to \<open>10\<^sup>-\<^sup>9\<close>; one token divided by it is just below
  \<open>10\<^sup>9\<close> and is truncated to 999999999 ns, to which a tenth is added.
\<close>

lemma waitFor_empty_60:
  "waitFor oor \<lparr>capacity = 60, remaining = 0, refillInterval = Minute, lastRefill = t\<rparr> 1 0
     = 1099999998"
proof -
  have rate: "fdiv (f64_of_int64 60) (f64_of_int64 Minute)
      = Fin (4835703278458517 / 4835703278458516698824704)"
    by (simp add: f64_of_int64_60 f64_of_int64_Minute fdiv_Fin round_f64_nano)
  have q: "fdiv (f64_of_int64 1) (Fin (4835703278458517 / 4835703278458516698824704))
      = Fin (8388607999999999 / 8388608)"
    by (simp add: f64_of_int64_1 fdiv_Fin round_f64_giga)
  have t: "int64_of_f64 oor (Fin (8388607999999999 / 8388608)) = 999999999"
    by (simp add: trunc_rat_def)
  have d: "quo64 999999999 10 = 99999999"
    by (simp add: quo64_def)
  show ?thesis
    by (simp add: waitFor_def word_sle_eq rate q t d del: int64_of_f64.simps)
qed

lemma TimeUntilAvailable_empty_60:
  "TB_TimeUntilAvailable oor
     \<lparr>capacity = 60, remaining = 0, refillInterval = Minute, lastRefill = 0\<rparr> 1 0 = 1099999998"
proof -
  have "effectiveRemaining oor
      \<lparr>capacity = 60, remaining = 0, refillInterval = Minute, lastRefill = 0\<rparr> 0 = 0"
    by (simp add: effectiveRemaining_def clock_eval)
  then show ?thesis
    by (simp add: TB_TimeUntilAvailable_def waitFor_empty_60)
qed

lemma TimeUntilAvailable_full_60:
  "TB_TimeUntilAvailable oor
     \<lparr>capacity = 60, remaining = 60, refillInterval = Minute, lastRefill = 0\<rparr> 1 0 = 0"
proof -
  have "effectiveRemaining oor
      \<lparr>capacity = 60, remaining = 60, refillInterval = Minute, lastRefill = 0\<rparr> 0 = 60"
    by (simp add: effectiveRemaining_def clock_eval)
  then show ?thesis
    by (simp add: TB_TimeUntilAvailable_def waitFor_def word_sle_eq)
qed

section \<open>Waiting for capacity\<close>

text \<open>
  C6.  With \<open>maxWait > 0\<close> and a computed wait (the larger of the two buckets' estimates)
  above it, \<^verbatim>\<open>WaitAndConsume\<close> returns the wait-exceeded error, starts no timer and
  leaves the limiter as it was.  With \<open>maxWait = 0\<close> there is no bound: a positive wait
  is slept in full unless the context ends the sleep, in which case the context's error
  is returned and nothing is consumed; after the sleep (or at once, when the wait is not
  positive) the consume runs, and the result is nil exactly when it succeeds.
\<close>

theorem C6_WaitAndConsume:
  "RL_TimeUntilAvailable oor rl n (c 2) (c 3)
     = (if TB_TimeUntilAvailable oor (RequestsBucket rl) 1 (c 3)
            <s TB_TimeUntilAvailable oor (TokensBucket rl) n (c 2)
        then TB_TimeUntilAvailable oor (TokensBucket rl) n (c 2)
        else TB_TimeUntilAvailable oor (RequestsBucket rl) 1 (c 3))
   \<and> (0 <s maxWait \<and> maxWait <s RL_TimeUntilAvailable oor rl n (c 2) (c 3) \<longrightarrow>
        RL_WaitAndConsume oor rl ctx n maxWait c
          = (rl, Some (ErrWaitExceeded (RL_TimeUntilAvailable oor rl n (c 2) (c 3)) maxWait),
             NoSleep))
   \<and> (0 <s RL_TimeUntilAvailable oor rl n (c 2) (c 3) \<and>
        ctx (RL_TimeUntilAvailable oor rl n (c 2) (c 3)) = Some e \<longrightarrow>
        RL_WaitAndConsume oor rl ctx n 0 c
          = (rl, Some (CtxError e), Interrupted (RL_TimeUntilAvailable oor rl n (c 2) (c 3))))
   \<and> (0 <s RL_TimeUntilAvailable oor rl n (c 2) (c 3) \<and>
        ctx (RL_TimeUntilAvailable oor rl n (c 2) (c 3)) = None \<longrightarrow>
        RL_WaitAndConsume oor rl ctx n 0 c
          = (fst (RL_TryConsume rl n (c 0) (c 1)),
             if snd (RL_TryConsume rl n (c 0) (c 1)) then None else Some ErrAcquireFailed,
             Slept (RL_TimeUntilAvailable oor rl n (c 2) (c 3))))
   \<and> (\<not> 0 <s RL_TimeUntilAvailable oor rl n (c 2) (c 3) \<longrightarrow>
        RL_WaitAndConsume oor rl ctx n 0 c
          = (fst (RL_TryConsume rl n (c 0) (c 1)),
             if snd (RL_TryConsume rl n (c 0) (c 1)) then None else Some ErrAcquireFailed,
             NoSleep))"
proof -
  let ?w = "RL_TimeUntilAvailable oor rl n (c 2) (c 3)"
  have pos: "0 <s ?w" if "0 <s maxWait" "maxWait <s ?w"
    using that by (simp add: word_sless_alt)
  have z: "\<not> (0 :: Duration) <s 0"
    by (simp add: word_sless_alt)
  show ?thesis
    using pos z
    by (simp add: RL_WaitAndConsume_def RL_TimeUntilAvailable_def consumeAfterWait_eq Let_def)
qed


theorem C6_WaitAndConsume_witness:
  "RL_WaitAndConsume (\<lambda>x. 0)
     \<lparr>TokensBucket = \<lparr>capacity = 60, remaining = 0, refillInterval = Minute, lastRefill = 0\<rparr>,
      RequestsBucket = \<lparr>capacity = 60, remaining = 60, refillInterval = Minute, lastRefill = 0\<rparr>\<rparr>
     (\<lambda>d. None) 1 1000000000 (\<lambda>k. 0)
   = (\<lparr>TokensBucket = \<lparr>capacity = 60, remaining = 0, refillInterval = Minute, lastRefill = 0\<rparr>,
       RequestsBucket = \<lparr>capacity = 60, remaining = 60, refillInterval = Minute, lastRefill = 0\<rparr>\<rparr>,
      Some (ErrWaitExceeded 1099999998 1000000000), NoSleep)
   \<and> RL_WaitAndConsume (\<lambda>x. 0)
     \<lparr>TokensBucket = \<lparr>capacity = 60, remaining = 0, refillInterval = Minute, lastRefill = 0\<rparr>,
      RequestsBucket = \<lparr>capacity = 60, remaining = 60, refillInterval = Minute, lastRefill = 0\<rparr>\<rparr>
     (\<lambda>d. None) 1 0 (\<lambda>k. if k < 2 then 60000000000 else 0)
   = (\<lparr>TokensBucket =
         \<lparr>capacity = 60, remaining = 59, refillInterval = Minute, lastRefill = 60000000000\<rparr>,
       RequestsBucket =
         \<lparr>capacity = 60, remaining = 59, refillInterval = Minute, lastRefill = 60000000000\<rparr>\<rparr>,
      None, Slept 1099999998)"
proof -
  let ?rl = "\<lparr>TokensBucket =
                \<lparr>capacity = 60, remaining = 0, refillInterval = Minute, lastRefill = 0\<rparr>,
              RequestsBucket =
                \<lparr>capacity = 60, remaining = 60, refillInterval = Minute, lastRefill = 0\<rparr>\<rparr>"
  let ?c = "\<lambda>k :: nat. if k < 2 then (60000000000 :: int) else 0"
  have w0: "RL_TimeUntilAvailable (\<lambda>x. 0) ?rl 1 0 0 = 1099999998"
    by (simp add: RL_TimeUntilAvailable_def TimeUntilAvailable_empty_60
        TimeUntilAvailable_full_60 word_sless_alt)
  have w1: "RL_TimeUntilAvailable (\<lambda>x. 0) ?rl 1 ((\<lambda>k :: nat. 0 :: int) 2) ((\<lambda>k :: nat. 0 :: int) 3)
      = 1099999998"
    using w0 by simp
  have w2: "RL_TimeUntilAvailable (\<lambda>x. 0) ?rl 1 (?c 2) (?c 3) = 1099999998"
    using w0 by simp
  have a: "(0 :: Duration) <s 1000000000 \<and> (1000000000 :: Duration) <s 1099999998"
    by (simp add: word_sless_alt)
  have b: "(0 :: Duration) <s 1099999998"
    by (simp add: word_sless_alt)
  have tc: "RL_TryConsume ?rl 1 60000000000 60000000000
      = (\<lparr>TokensBucket =
            \<lparr>capacity = 60, remaining = 59, refillInterval = Minute, lastRefill = 60000000000\<rparr>,
          RequestsBucket =
            \<lparr>capacity = 60, remaining = 59, refillInterval = Minute, lastRefill = 60000000000\<rparr>\<rparr>,
         True)"
    by (simp add: RL_TryConsume_def TB_TryConsume_def TB_Consume_def refill_def refillDue_def
        clock_eval)
  from C6_WaitAndConsume [of "\<lambda>x. 0" ?rl 1 "\<lambda>k. 0" "1000000000" "\<lambda>d. None"]
  have first: "RL_WaitAndConsume (\<lambda>x. 0) ?rl (\<lambda>d. None) 1 1000000000 (\<lambda>k. 0)
      = (?rl, Some (ErrWaitExceeded 1099999998 1000000000), NoSleep)"
    unfolding w1 using a by blast
  from C6_WaitAndConsume [of "\<lambda>x. 0" ?rl 1 ?c 0 "\<lambda>d. None"]
  have "RL_WaitAndConsume (\<lambda>x. 0) ?rl (\<lambda>d. None) 1 0 ?c
      = (fst (RL_TryConsume ?rl 1 (?c 0) (?c 1)),
         if snd (RL_TryConsume ?rl 1 (?c 0) (?c 1)) then None else Some ErrAcquireFailed,
         Slept 1099999998)"
    unfolding w2 using b by blast
  then have second: "RL_WaitAndConsume (\<lambda>x. 0) ?rl (\<lambda>d. None) 1 0 ?c
      = (fst (RL_TryConsume ?rl 1 60000000000 60000000000), None, Slept 1099999998)"
    using tc by simp
  show ?thesis
    using first second tc by simp
qed

section \<open>Rate-limited dispatch\<close>

lemma RL_TryConsume_snd:
  "snd (RL_TryConsume rl n t1 t2) = RL_HasCapacity rl n t1 t2"
proof (cases "TB_HasCapacity (TokensBucket rl) n t1")
  case True
  note tok = this
  show ?thesis
  proof (cases "TB_HasCapacity (RequestsBucket rl) 1 t2")
    case True
    with tok TB_Consume_ok [OF tok] TB_Consume_ok [OF True] show ?thesis
      by (simp add: RL_TryConsume_def RL_HasCapacity_def TB_TryConsume_def)
  next
    case False
    with tok TB_Consume_ok [OF tok] TB_Consume_fail [OF False] show ?thesis
      by (simp add: RL_TryConsume_def RL_HasCapacity_def TB_TryConsume_def)
  qed
next
  case False
  with TB_Consume_fail [OF False] show ?thesis
    by (simp add: RL_TryConsume_def RL_HasCapacity_def TB_TryConsume_def)
qed

lemma RL_TryConsume_ok_remaining:
  assumes "RL_HasCapacity rl n t1 t2"
  shows "remaining (TokensBucket (fst (RL_TryConsume rl n t1 t2)))
           = (if refillDue (TokensBucket rl) t1 then capacity (TokensBucket rl)
              else remaining (TokensBucket rl)) - n"
    and "remaining (RequestsBucket (fst (RL_TryConsume rl n t1 t2)))
           = (if refillDue (RequestsBucket rl) t2 then capacity (RequestsBucket rl)
              else remaining (RequestsBucket rl)) - 1"
proof -
  from assms have tok: "TB_HasCapacity (TokensBucket rl) n t1"
    and req: "TB_HasCapacity (RequestsBucket rl) 1 t2"
    by (simp_all add: RL_HasCapacity_def)
  show "remaining (TokensBucket (fst (RL_TryConsume rl n t1 t2)))
           = (if refillDue (TokensBucket rl) t1 then capacity (TokensBucket rl)
              else remaining (TokensBucket rl)) - n"
    using TB_Consume_ok [OF tok] TB_Consume_ok [OF req]
    by (simp add: RL_TryConsume_def TB_TryConsume_def refill_def)
  show "remaining (RequestsBucket (fst (RL_TryConsume rl n t1 t2)))
           = (if refillDue (RequestsBucket rl) t2 then capacity (RequestsBucket rl)
              else remaining (RequestsBucket rl)) - 1"
    using TB_Consume_ok [OF tok] TB_Consume_ok [OF req]
    by (simp add: RL_TryConsume_def TB_TryConsume_def refill_def)
qed

lemma resolveModel_rateLimiters:
  "resolveModel (m\<lparr>rateLimiters := r\<rparr>) config = resolveModel m config"
  by (simp add: resolveModel_def Let_def)

lemma checkRateLimit_nowait:
  assumes "rateLimiters m model = Some limiter" and "\<not> WaitOnRateLimit cfg"
  shows "checkRateLimit oor m ctx c model cfg prompt
    = (m\<lparr>rateLimiters := (rateLimiters m)
            (model \<mapsto> fst (RL_TryConsume limiter
               (EstimateTokens oor (tokenEstimator m) prompt + tokenBuffer) (c 0) (c 1)))\<rparr>,
       if RL_HasCapacity limiter
            (EstimateTokens oor (tokenEstimator m) prompt + tokenBuffer) (c 0) (c 1)
       then None
       else Some (RateLimitError
              (RL_TimeUntilAvailable oor
                 (fst (RL_TryConsume limiter
                    (EstimateTokens oor (tokenEstimator m) prompt + tokenBuffer) (c 0) (c 1)))
                 (EstimateTokens oor (tokenEstimator m) prompt + tokenBuffer) (c 2) (c 3))
              ''tokens'' model))"
proof -
  let ?n = "EstimateTokens oor (tokenEstimator m) prompt + tokenBuffer"
  obtain l' ok where t: "RL_TryConsume limiter ?n (c 0) (c 1) = (l', ok)"
    by (cases "RL_TryConsume limiter ?n (c 0) (c 1)")
  with RL_TryConsume_snd [of limiter ?n "c 0" "c 1"]
  have ok: "ok = RL_HasCapacity limiter ?n (c 0) (c 1)"
    by simp
  show ?thesis
    using assms t ok by (cases ok) (simp_all add: checkRateLimit_def Let_def)
qed

text \<open>
  C2.  A \<^verbatim>\<open>Generate\<close> call that does not wait, for a registered model with a limiter.
  The amount asked of the limiter is the estimate of the prompt plus the buffer of 100.
  If the limiter lacks capacity for it (the tokens, or the one request), the result is the
  rate-limit error of kind \<^verbatim>\<open>"tokens"\<close> for the resolved model, with the retry-after
  taken from the limiter, and no call reaches a backend.  If the limiter has capacity, the
  token bucket's remaining goes down by exactly that amount, and the call goes on to the
  provider: when it is configured, its \<^verbatim>\<open>Generate\<close> is called once, with the config
  rewritten to the backend's model name, and its answer is returned.
\<close>

theorem C2_Generate_rate_limit:
  assumes reg: "modelMappings m (resolveModel m (Some cfg)) = Some mapping"
    and lim: "rateLimiters m (resolveModel m (Some cfg)) = Some limiter"
    and nowait: "\<not> WaitOnRateLimit cfg"
  shows "(\<not> RL_HasCapacity limiter
            (EstimateTokens oor (tokenEstimator m) prompt + 100) (c 0) (c 1) \<longrightarrow>
         snd (Generate oor m ctx c calls prompt (Some cfg))
           = (calls,
              Inl (RateLimitError
                (RL_TimeUntilAvailable oor
                   (fst (RL_TryConsume limiter
                      (EstimateTokens oor (tokenEstimator m) prompt + 100) (c 0) (c 1)))
                   (EstimateTokens oor (tokenEstimator m) prompt + 100) (c 2) (c 3))
                ''tokens'' (resolveModel m (Some cfg)))))
    \<and> (RL_HasCapacity limiter
            (EstimateTokens oor (tokenEstimator m) prompt + 100) (c 0) (c 1) \<longrightarrow>
         (case rateLimiters (fst (Generate oor m ctx c calls prompt (Some cfg)))
                 (resolveModel m (Some cfg)) of
            None \<Rightarrow> False
          | Some limiter' \<Rightarrow>
              remaining (TokensBucket limiter')
                = (if refillDue (TokensBucket limiter) (c 0) then capacity (TokensBucket limiter)
                   else remaining (TokensBucket limiter))
                  - (EstimateTokens oor (tokenEstimator m) prompt + 100))
         \<and> snd (Generate oor m ctx c calls prompt (Some cfg))
           = (case providers m (Provider mapping) of
                None \<Rightarrow> (calls, Inl (ErrProviderNotConfigured (Provider mapping)))
              | Some gen \<Rightarrow>
                  (calls @ [(Provider mapping,
                             CallGenerate prompt (cfg\<lparr>Model := ActualModelName mapping\<rparr>))],
                   reply gen calls
                     (CallGenerate prompt (cfg\<lparr>Model := ActualModelName mapping\<rparr>)))))"
proof -
  let ?model = "resolveModel m (Some cfg)"
  let ?n = "EstimateTokens oor (tokenEstimator m) prompt + 100"
  let ?l' = "fst (RL_TryConsume limiter ?n (c 0) (c 1))"
  let ?m' = "m\<lparr>rateLimiters := (rateLimiters m)(?model \<mapsto> ?l')\<rparr>"
  note chk = checkRateLimit_nowait [OF lim nowait, of oor ctx c prompt, unfolded tokenBuffer_def]
  have res: "resolveModel ?m' (Some cfg) = ?model"
    by (rule resolveModel_rateLimiters)
  have fail: "Generate oor m ctx c calls prompt (Some cfg)
      = (?m', calls,
         Inl (RateLimitError (RL_TimeUntilAvailable oor ?l' ?n (c 2) (c 3)) ''tokens'' ?model))"
    if "\<not> RL_HasCapacity limiter ?n (c 0) (c 1)"
    using that chk by (simp add: Generate_def)
  have pass: "Generate oor m ctx c calls prompt (Some cfg)
      = (?m',
         case providers m (Provider mapping) of
           None \<Rightarrow> (calls, Inl (ErrProviderNotConfigured (Provider mapping)))
         | Some gen \<Rightarrow>
             (calls @ [(Provider mapping,
                        CallGenerate prompt (cfg\<lparr>Model := ActualModelName mapping\<rparr>))],
              reply gen calls (CallGenerate prompt (cfg\<lparr>Model := ActualModelName mapping\<rparr>))))"
    if "RL_HasCapacity limiter ?n (c 0) (c 1)"
    using that chk reg res
    by (simp add: Generate_def getGeneratorForConfig_def getProvider_def split: option.splits)
  show ?thesis
    using fail pass RL_TryConsume_ok_remaining(1) [of limiter ?n "c 0" "c 1"]
    by simp
qed

lemma round_f64_11_4: "round_f64 (11 / 4) = 11 / 4"
  by (simp add: round_eval)

lemma round_f64_6_5: "round_f64 (6 / 5) = 5404319552844595 / 4503599627370496"
  by (simp add: round_eval)

lemma round_f64_test_prompt:
  "round_f64 (11 / 4 * (5404319552844595 / 4503599627370496))
     = 3715469692580659 / 1125899906842624"
  by (simp add: round_eval)

text \<open>The prompt of the package's rate-limit test, 11 characters: estimate 4 + 3.\<close>

lemma EstimateTokens_test_prompt:
  "EstimateTokens oor NewSimpleTokenEstimator ''test prompt'' = 7"
proof -
  have c: "f64_of_int64 11 = Fin 11"
    by (simp add: f64_of_int64_def round_eval)
  have d: "fdiv (Fin 11) (Fin 4) = Fin (11 / 4)"
    by (simp add: fdiv_Fin round_f64_11_4)
  have p: "fmul (Fin (11 / 4)) (Fin (5404319552844595 / 4503599627370496))
      = Fin (3715469692580659 / 1125899906842624)"
    using round_f64_test_prompt by (simp add: fmul_Fin)
  have t: "int64_of_f64 oor (fceil (Fin (3715469692580659 / 1125899906842624))) = 4"
    by (simp add: trunc_rat_def)
  show ?thesis
    unfolding EstimateTokens_def NewSimpleTokenEstimator_def round_f64_6_5
    by (simp add: c d p t del: int64_of_f64.simps fceil.simps)
qed

theorem C2_Generate_rate_limit_witness:
  "snd (Generate (\<lambda>x. 0) (testManager 100) (\<lambda>d. None) (\<lambda>k. 0) [] ''test prompt''
          (Some (DefaultConfig\<lparr>Model := ''test-model''\<rparr>)))
     = ([], Inl (RateLimitError
               (RL_TimeUntilAvailable (\<lambda>x. 0)
                  (fst (RL_TryConsume (NewLimiter \<lparr>TokensPerMinute = 100, RequestsPerMinute = 10\<rparr> 0 0)
                          107 0 0))
                  107 0 0)
               ''tokens'' ''test-model''))
   \<and> snd (Generate (\<lambda>x. 0) (testManager 200) (\<lambda>d. None) (\<lambda>k. 0) [] ''test prompt''
          (Some (DefaultConfig\<lparr>Model := ''test-model''\<rparr>)))
     = ([(''test-provider'',
          CallGenerate ''test prompt'' (DefaultConfig\<lparr>Model := ''test-model-api''\<rparr>))],
        Inr \<lparr>Images = [], Text = ''ok'', ThinkingContent = []\<rparr>)
   \<and> map_option (\<lambda>l. remaining (TokensBucket l))
        (rateLimiters
           (fst (Generate (\<lambda>x. 0) (testManager 200) (\<lambda>d. None) (\<lambda>k. 0) [] ''test prompt''
                   (Some (DefaultConfig\<lparr>Model := ''test-model''\<rparr>))))
           ''test-model'')
     = Some 93"
proof -
  let ?cfg = "DefaultConfig\<lparr>Model := ''test-model''\<rparr>"
  let ?map = "\<lparr>Provider = ''test-provider'', ActualModelName = ''test-model-api''\<rparr>"
  have res: "resolveModel (testManager k) (Some ?cfg) = ''test-model''" for k
    by (simp add: resolveModel_def ModelDefault_def ModelNanoBanana2_def)
  have reg: "modelMappings (testManager k) (resolveModel (testManager k) (Some ?cfg)) = Some ?map"
    for k
    unfolding res by (simp add: testManager_def)
  have lim: "rateLimiters (testManager k) (resolveModel (testManager k) (Some ?cfg))
      = Some (NewLimiter \<lparr>TokensPerMinute = k, RequestsPerMinute = 10\<rparr> 0 0)" for k
    unfolding res by (simp add: testManager_def)
  have nowait: "\<not> WaitOnRateLimit ?cfg"
    by (simp add: DefaultConfig_def)
  have est: "EstimateTokens (\<lambda>x. 0) (tokenEstimator (testManager k)) ''test prompt'' + 100
      = 107" for k
    by (simp add: testManager_def EstimateTokens_test_prompt)
  have no: "\<not> RL_HasCapacity (NewLimiter \<lparr>TokensPerMinute = 100, RequestsPerMinute = 10\<rparr> 0 0)
      107 0 0"
    by (simp add: RL_HasCapacity_def TB_HasCapacity_def NewLimiter_def NewTokenBucket_def
        refillDue_def clock_eval)
  have yes: "RL_HasCapacity (NewLimiter \<lparr>TokensPerMinute = 200, RequestsPerMinute = 10\<rparr> 0 0)
      107 0 0"
    by (simp add: RL_HasCapacity_def TB_HasCapacity_def NewLimiter_def NewTokenBucket_def
        refillDue_def clock_eval)
  have nd: "\<not> refillDue
      (TokensBucket (NewLimiter \<lparr>TokensPerMinute = 200, RequestsPerMinute = 10\<rparr> 0 0)) 0"
    by (simp add: NewLimiter_def NewTokenBucket_def refillDue_def clock_eval)
  have tb200:
    "(if refillDue
          (TokensBucket (NewLimiter \<lparr>TokensPerMinute = 200, RequestsPerMinute = 10\<rparr> 0 0)) 0
      then capacity (TokensBucket (NewLimiter \<lparr>TokensPerMinute = 200, RequestsPerMinute = 10\<rparr> 0 0))
      else remaining (TokensBucket (NewLimiter \<lparr>TokensPerMinute = 200, RequestsPerMinute = 10\<rparr> 0 0)))
     = 200"
    using nd by (simp add: NewLimiter_def NewTokenBucket_def)
  have prov: "providers (testManager k) (Provider ?map)
      = Some \<lparr>reply = \<lambda>cs call. Inr \<lparr>Images = [], Text = ''ok'', ThinkingContent = []\<rparr>,
              startConversation = None\<rparr>" for k
    by (simp add: testManager_def)
  from C2_Generate_rate_limit [OF reg lim nowait, of 100 "\<lambda>x. 0" "''test prompt''" "\<lambda>k. 0"
      "\<lambda>d. None" "[]"]
  have a: "snd (Generate (\<lambda>x. 0) (testManager 100) (\<lambda>d. None) (\<lambda>k. 0) [] ''test prompt''
          (Some ?cfg))
     = ([], Inl (RateLimitError
               (RL_TimeUntilAvailable (\<lambda>x. 0)
                  (fst (RL_TryConsume (NewLimiter \<lparr>TokensPerMinute = 100, RequestsPerMinute = 10\<rparr> 0 0)
                          107 0 0))
                  107 0 0)
               ''tokens'' ''test-model''))"
    unfolding est res using no by simp
  from C2_Generate_rate_limit [OF reg lim nowait, of 200 "\<lambda>x. 0" "''test prompt''" "\<lambda>k. 0"
      "\<lambda>d. None" "[]"]
  have b: "(case rateLimiters (fst (Generate (\<lambda>x. 0) (testManager 200) (\<lambda>d. None) (\<lambda>k. 0) []
                 ''test prompt'' (Some ?cfg))) ''test-model'' of
            None \<Rightarrow> False
          | Some limiter' \<Rightarrow> remaining (TokensBucket limiter') = 200 - 107)
      \<and> snd (Generate (\<lambda>x. 0) (testManager 200) (\<lambda>d. None) (\<lambda>k. 0) [] ''test prompt''
          (Some ?cfg))
        = ([(''test-provider'', CallGenerate ''test prompt'' (?cfg\<lparr>Model := ''test-model-api''\<rparr>))],
           Inr \<lparr>Images = [], Text = ''ok'', ThinkingContent = []\<rparr>)"
    unfolding est res prov tb200 using yes by simp
  show ?thesis
    using a b by (auto split: option.splits)
qed

section \<open>Conversations on a backend without native sessions\<close>

lemma Send_stateless:
  assumes fresh: "providerConv conv = None"
    and nn: "noNativeSession m conv (prompt, images, config)"
    and ok: "Send m conv calls prompt images config = (conv', calls', Inr result)"
  shows "history conv' = history conv @ [userTurnOf prompt images, modelTurnOf result]"
    and "\<exists>p cfg. calls' = calls @ [(p, if images \<noteq> [] then CallEditMultiple images prompt cfg
                                        else CallGenerate prompt cfg)]"
    and "providerConv conv' = None"
    and "modelLocked conv' = modelLocked conv"
    and "lockedModel conv' = lockedModel conv"
proof -
  obtain mapping where mp: "modelMappings m (conversationModel m conv config) = Some mapping"
    using ok by (cases "modelMappings m (conversationModel m conv config)")
      (simp_all add: Send_def)
  obtain gen where pr: "providers m (Provider mapping) = Some gen"
    using ok mp fresh by (cases "providers m (Provider mapping)")
      (simp_all add: Send_def sendFresh_def getProvider_def)
  have ns: "startConversation gen = None"
    using nn mp pr by (simp add: resolvedBackend_def)
  let ?cfg = "(case config of None \<Rightarrow> DefaultConfig | Some cfg \<Rightarrow> cfg)
                \<lparr>Model := ActualModelName mapping\<rparr>"
  let ?call = "if images \<noteq> [] then CallEditMultiple images prompt ?cfg
               else CallGenerate prompt ?cfg"
  have eq: "Send m conv calls prompt images config
      = (case reply gen calls ?call of
           Inl err \<Rightarrow> (conv, calls @ [(Provider mapping, ?call)], Inl err)
         | Inr result \<Rightarrow>
             (conv\<lparr>history := history conv @ [userTurnOf prompt images, modelTurnOf result]\<rparr>,
              calls @ [(Provider mapping, ?call)], Inr result))"
    using mp pr ns fresh by (simp add: Send_def sendFresh_def getProvider_def Let_def)
  from ok eq have r: "reply gen calls ?call = Inr result"
    and c: "conv' = conv\<lparr>history := history conv @ [userTurnOf prompt images, modelTurnOf result]\<rparr>"
    and l: "calls' = calls @ [(Provider mapping, ?call)]"
    by (cases "reply gen calls ?call"; simp)+
  show "history conv' = history conv @ [userTurnOf prompt images, modelTurnOf result]"
    using c by simp
  show "\<exists>p cfg. calls' = calls @ [(p, if images \<noteq> [] then CallEditMultiple images prompt cfg
                                        else CallGenerate prompt cfg)]"
    using l by (cases "images = []") auto
  show "providerConv conv' = None" "modelLocked conv' = modelLocked conv"
    "lockedModel conv' = lockedModel conv"
    using c fresh by simp_all
qed

lemma noNativeSession_cong:
  "modelLocked conv' = modelLocked conv \<Longrightarrow> lockedModel conv' = lockedModel conv \<Longrightarrow>
   noNativeSession m conv' r = noNativeSession m conv r"
  by (cases r) (simp add: resolvedBackend_def conversationModel_def)

lemma alternating_append:
  "alternating xs \<Longrightarrow> alternating ys \<Longrightarrow> alternating (xs @ ys)"
  by (induction xs rule: alternating.induct) simp_all

lemma alternating_pair: "alternating [userTurnOf prompt images, modelTurnOf result]"
  by (simp add: userTurnOf_def modelTurnOf_def)

text \<open>
  C7 as stated names the wrong backend method: with input images the stateless call is
  \<^verbatim>\<open>EditMultiple\<close> on the whole list, never \<^verbatim>\<open>Edit\<close>.  One turn with one image
  on the test manager's backend, which has no native sessions:
\<close>

theorem C7_edit_counterexample:
  "fst (snd (Send (testManager 200) StartConversation [] ''add a hat''
               [\<lparr>in_Data = [1, 2, 3], in_MIMEType = ''image/png'', in_URI = []\<rparr>]
               (Some (DefaultConfig\<lparr>Model := ''test-model''\<rparr>))))
     = [(''test-provider'',
         CallEditMultiple [\<lparr>in_Data = [1, 2, 3], in_MIMEType = ''image/png'', in_URI = []\<rparr>]
           ''add a hat'' (DefaultConfig\<lparr>Model := ''test-model-api''\<rparr>))]
   \<and> fst (snd (Send (testManager 200) StartConversation [] ''add a hat''
               [\<lparr>in_Data = [1, 2, 3], in_MIMEType = ''image/png'', in_URI = []\<rparr>]
               (Some (DefaultConfig\<lparr>Model := ''test-model''\<rparr>))))
     \<noteq> [(''test-provider'',
         CallEdit \<lparr>in_Data = [1, 2, 3], in_MIMEType = ''image/png'', in_URI = []\<rparr>
           ''add a hat'' (DefaultConfig\<lparr>Model := ''test-model-api''\<rparr>))]"
  by (simp add: Send_def sendFresh_def getProvider_def conversationModel_def
      StartConversation_def testManager_def Let_def)

text \<open>
  C7, amended.  On a conversation with no bound session, for turns whose resolved backend
  has no native sessions: every successful \<^verbatim>\<open>Send\<close> makes exactly one backend call,
  \<^verbatim>\<open>EditMultiple\<close> if input images are present and \<^verbatim>\<open>Generate\<close> otherwise, and
  appends exactly two entries, a user turn then a model turn.  After \<open>k\<close> successful
  sends the history has grown by \<open>2k\<close> entries in (user, model) pairs, and \<open>k\<close> calls
  were made.
\<close>

theorem C7_stateless_sends:
  assumes fresh: "providerConv conv = None"
    and nn: "list_all (noNativeSession m conv) reqs"
    and run: "sendAll m conv calls reqs = Some (conv', calls')"
  shows "\<exists>turns new.
           history conv' = history conv @ turns \<and> length turns = 2 * length reqs
           \<and> alternating turns
           \<and> calls' = calls @ new \<and> list_all2 isStatelessCall reqs new
           \<and> providerConv conv' = None"
  using fresh nn run
proof (induction reqs arbitrary: conv calls)
  case Nil
  then show ?case by simp
next
  case (Cons r rs)
  obtain prompt images config where r: "r = (prompt, images, config)"
    by (cases r)
  from Cons.prems(3) r obtain conv1 calls1 result
    where s: "Send m conv calls prompt images config = (conv1, calls1, Inr result)"
      and rest: "sendAll m conv1 calls1 rs = Some (conv', calls')"
    by (auto split: prod.splits sum.splits)
  from Cons.prems(2) r have nn1: "noNativeSession m conv (prompt, images, config)"
    and nns: "list_all (noNativeSession m conv) rs"
    by simp_all
  note st = Send_stateless [OF Cons.prems(1) nn1 s]
  from st(2) obtain p cfg where c1: "calls1 = calls @ [(p, if images \<noteq> [] then
      CallEditMultiple images prompt cfg else CallGenerate prompt cfg)]"
    by blast
  have "list_all (noNativeSession m conv1) rs"
    using nns noNativeSession_cong [OF st(4) st(5)] by (simp add: list_all_iff)
  from Cons.IH [OF st(3) this rest] obtain turns new
    where h: "history conv' = history conv1 @ turns" "length turns = 2 * length rs"
      "alternating turns" "calls' = calls1 @ new" "list_all2 isStatelessCall rs new"
      "providerConv conv' = None"
    by blast
  let ?turns = "[userTurnOf prompt images, modelTurnOf result] @ turns"
  let ?new = "(p, if images \<noteq> [] then CallEditMultiple images prompt cfg
                  else CallGenerate prompt cfg) # new"
  have "history conv' = history conv @ ?turns"
    using h(1) st(1) by simp
  moreover have "length ?turns = 2 * length (r # rs)"
    using h(2) by simp
  moreover have "alternating ?turns"
    using h(3) by (simp add: userTurnOf_def modelTurnOf_def)
  moreover have "calls' = calls @ ?new"
    using h(4) c1 by simp
  moreover have "list_all2 isStatelessCall (r # rs) ?new"
    using h(5) r by simp
  ultimately show ?case
    using h(6) by blast
qed

theorem C7_stateless_sends_witness:
  "sendAll (testManager 200) StartConversation []
     [(''a cat'', [], Some (DefaultConfig\<lparr>Model := ''test-model''\<rparr>)),
      (''add a hat'', [\<lparr>in_Data = [1, 2, 3], in_MIMEType = ''image/png'', in_URI = []\<rparr>],
       Some (DefaultConfig\<lparr>Model := ''test-model''\<rparr>))] \<noteq> None
   \<and> (\<exists>turns new.
        history (fst (the (sendAll (testManager 200) StartConversation []
          [(''a cat'', [], Some (DefaultConfig\<lparr>Model := ''test-model''\<rparr>)),
           (''add a hat'', [\<lparr>in_Data = [1, 2, 3], in_MIMEType = ''image/png'', in_URI = []\<rparr>],
            Some (DefaultConfig\<lparr>Model := ''test-model''\<rparr>))]))) = turns
        \<and> length turns = 4 \<and> alternating turns
        \<and> snd (the (sendAll (testManager 200) StartConversation []
          [(''a cat'', [], Some (DefaultConfig\<lparr>Model := ''test-model''\<rparr>)),
           (''add a hat'', [\<lparr>in_Data = [1, 2, 3], in_MIMEType = ''image/png'', in_URI = []\<rparr>],
            Some (DefaultConfig\<lparr>Model := ''test-model''\<rparr>))])) = new
        \<and> length new = 2)"
proof -
  let ?m = "testManager 200"
  let ?c = "StartConversation :: unit ManagedConversation"
  let ?reqs = "[(''a cat'', [], Some (DefaultConfig\<lparr>Model := ''test-model''\<rparr>)),
      (''add a hat'', [\<lparr>in_Data = [1, 2, 3], in_MIMEType = ''image/png'', in_URI = []\<rparr>],
       Some (DefaultConfig\<lparr>Model := ''test-model''\<rparr>))]"
  have fresh: "providerConv ?c = None"
    by (simp add: StartConversation_def)
  have nn: "list_all (noNativeSession ?m ?c) ?reqs"
    by (simp add: resolvedBackend_def conversationModel_def StartConversation_def
        testManager_def)
  have "\<exists>c k. sendAll ?m ?c [] ?reqs = Some (c, k)"
    by (simp add: Send_def sendFresh_def getProvider_def conversationModel_def
        StartConversation_def testManager_def Let_def)
  then obtain c k where run: "sendAll ?m ?c [] ?reqs = Some (c, k)"
    by blast
  from C7_stateless_sends [OF fresh nn run] obtain turns new
    where "history c = history ?c @ turns" "length turns = 2 * length ?reqs"
      "alternating turns" "k = [] @ new" "list_all2 isStatelessCall ?reqs new"
    by blast
  then have "history c = turns \<and> length turns = 4 \<and> alternating turns \<and> k = new
      \<and> length new = 2"
    by (auto simp: StartConversation_def dest: list_all2_lengthD)
  then show ?thesis
    using run by simp
qed

section \<open>History is a copy of the turns only\<close>

lemma History_reads_same:
  "read_history (fst (History h hist)) (snd (History h hist)) = read_history h hist"
  by (simp add: History_def read_history_def read_turn_def read_image_def window_def Let_def)

text \<open>
  The turn structs in the returned slice are the structs of the history, slice headers
  included: each returned turn points at the very image array its original points at.
\<close>

lemma History_copies_headers:
  "window (snd (History h hist)) (turn_arrays (fst (History h hist)) (base (snd (History h hist))))
     = window hist (turn_arrays h (base hist))"
  by (simp add: History_def window_def Let_def)

text \<open>
  What the copy does protect: assigning to an element of the returned slice changes
  nothing the conversation reads through its own history, the history's array having been
  allocated before the call.
\<close>

lemma History_SetTurn_frame:
  assumes alloc: "base hist < next_addr h"
    and hist': "History h hist = (h', r)"
    and mut: "mutate h' r (SetTurn i t) = Some h''"
  shows "read_history h' r = read_history h hist
       \<and> base r \<noteq> base hist
       \<and> read_history h'' hist = read_history h hist"
proof -
  from hist' have h': "h' = h\<lparr>turn_arrays := (turn_arrays h)
        (next_addr h := window hist (turn_arrays h (base hist))), next_addr := Suc (next_addr h)\<rparr>"
    and r: "r = \<lparr>base = next_addr h, off = 0, len = len hist\<rparr>"
    by (simp_all add: History_def Let_def)
  have same: "read_history h' r = read_history h hist"
    using History_reads_same [of h hist] hist' by simp
  have ne: "base r \<noteq> base hist"
    using alloc r by simp
  from mut have h'': "h'' = h'\<lparr>turn_arrays :=
      (turn_arrays h')(base r := (turn_arrays h' (base r))[off r + i := t])\<rparr>"
    by (simp split: if_splits)
  have "read_history h'' hist = read_history h hist"
    using ne alloc unfolding h'' h' r
    by (simp add: read_history_def read_turn_def read_image_def)
  with same ne show ?thesis
    by simp
qed

text \<open>
  C8.  The claim is what \<^verbatim>\<open>History()\<close> is written for (``Return a copy to prevent
  external modification''), and the code misses it: \<^verbatim>\<open>make\<close> and \<^verbatim>\<open>copy\<close>
  duplicate the turn structs only, so the image bytes stay shared.  On the example store
  the caller takes \<^verbatim>\<open>h := conv.History()\<close> and runs
  \<^verbatim>\<open>h[1].Images[0].Data[0] = 9\<close>; the image data the conversation reads through its
  own history was 1, 2, 3 before and is 9, 2, 3 afterwards.
\<close>

theorem C8_History_shares_image_bytes:
  "map (\<lambda>t. map Data (turnImages t)) (read_history exampleStore exampleHistory)
     = [[], [[1, 2, 3]]]
   \<and> map (\<lambda>t. map Data (turnImages t))
        (read_history
           (the (mutate (fst (History exampleStore exampleHistory))
                   (snd (History exampleStore exampleHistory)) (SetByte 1 0 0 9)))
           exampleHistory)
       = [[], [[9, 2, 3]]]"
  by (simp add: History_def read_history_def read_turn_def read_image_def window_def
      exampleStore_def exampleHistory_def Let_def)

section \<open>Rounding: order and exact values\<close>

lemma bit_length_bounds:
  "0 < n \<Longrightarrow> 2 ^ (bit_length n - 1) \<le> n \<and> n < 2 ^ bit_length n"
proof (induction n rule: bit_length.induct)
  case (1 n)
  show ?case
  proof (cases "n div 2 = 0")
    case True
    with "1.prems" have "n = 1" by (simp add: div_eq_0_iff)
    then show ?thesis by simp
  next
    case False
    then have pos: "0 < n div 2" by simp
    from "1.prems" have ne: "n \<noteq> 0" by simp
    from "1.IH" [OF ne pos]
    have ih: "2 ^ (bit_length (n div 2) - 1) \<le> n div 2" "n div 2 < 2 ^ bit_length (n div 2)"
      by simp_all
    have b: "bit_length n = Suc (bit_length (n div 2))"
      using "1.prems" by (rule bit_length_pos)
    have "2 ^ (bit_length n - 1) = (2 :: nat) * 2 ^ (bit_length (n div 2) - 1)"
      using b bit_length_pos [OF pos] by simp
    also have "\<dots> \<le> 2 * (n div 2)"
      using ih(1) by simp
    also have "\<dots> \<le> n"
      by simp
    finally have lo: "2 ^ (bit_length n - 1) \<le> n" .
    have "n < 2 * (n div 2) + 2"
      by arith
    also have "\<dots> \<le> 2 * 2 ^ bit_length (n div 2)"
      using ih(2) by simp
    finally have hi: "n < 2 ^ bit_length n"
      using b by simp
    from lo hi show ?thesis ..
  qed
qed

lemma pow2_powr: "pow2 k = 2 powr (real_of_int k)"
proof (cases "0 \<le> k")
  case True
  then have "2 powr real_of_int k = 2 powr real (nat k)" by simp
  also have "\<dots> = 2 ^ nat k" by (simp add: powr_realpow)
  finally show ?thesis
    using True by (simp add: pow2_def)
next
  case False
  then have "2 powr real_of_int k = 2 powr (- real (nat (- k)))" by simp
  also have "\<dots> = 1 / 2 ^ nat (- k)"
    by (simp add: powr_minus powr_realpow divide_inverse)
  finally show ?thesis
    using False by (simp add: pow2_def)
qed

lemma pow2_pos [simp]: "0 < pow2 k"
  by (simp add: pow2_powr)

lemma pow2_nonneg [simp]: "0 \<le> pow2 k"
  by (simp add: pow2_powr)

lemma pow2_add: "pow2 (a + b) = pow2 a * pow2 b"
  by (simp add: pow2_powr powr_add)

lemma pow2_mono: "a \<le> b \<Longrightarrow> pow2 a \<le> pow2 b"
  by (simp add: pow2_powr)

lemma pow2_less_iff: "pow2 a < pow2 b \<longleftrightarrow> a < b"
  by (simp add: pow2_powr)

lemma pow2_nat: "pow2 (int n) = 2 ^ n"
  by (simp add: pow2_def)

lemma pow2_0 [simp]: "pow2 0 = 1"
  by (simp add: pow2_def)

lemma pow2_52: "pow2 52 = 2 ^ 52"
  by (simp add: pow2_def)

lemma pow2_53: "pow2 53 = 2 ^ 53"
  by (simp add: pow2_def)

lemma pow2_split_52: "pow2 e = 2 ^ 52 * pow2 (e - 52)"
  using pow2_add [of 52 "e - 52"] by (simp add: pow2_52)

lemma pow2_split_53: "pow2 (e + 1) = 2 ^ 53 * pow2 (e - 52)"
  using pow2_add [of 53 "e - 52"] by (simp add: pow2_53 add.commute)

lemma nat_floor_bounds:
  assumes "1 \<le> (q :: real)"
  shows "0 < nat \<lfloor>q\<rfloor>" and "real (nat \<lfloor>q\<rfloor>) \<le> q" and "q < real (nat \<lfloor>q\<rfloor>) + 1"
proof -
  define c where "c = \<lfloor>q\<rfloor>"
  have c1: "1 \<le> c" and lo: "real_of_int c \<le> q" and hi: "q < real_of_int c + 1"
    unfolding c_def using assms by linarith+
  have r: "real (nat c) = real_of_int c"
    using c1 by simp
  show "0 < nat \<lfloor>q\<rfloor>" "real (nat \<lfloor>q\<rfloor>) \<le> q" "q < real (nat \<lfloor>q\<rfloor>) + 1"
    unfolding c_def [symmetric] r using c1 lo hi by simp_all
qed

lemma nat_ceiling_bounds:
  assumes "1 < (x :: real)"
  shows "0 < nat (\<lceil>x\<rceil> - 1)" and "real (nat (\<lceil>x\<rceil> - 1)) < x"
    and "x \<le> real (nat (\<lceil>x\<rceil> - 1)) + 1"
proof -
  define c where "c = \<lceil>x\<rceil>"
  have c2: "2 \<le> c" and lo: "real_of_int c - 1 < x" and hi: "x \<le> real_of_int c"
    unfolding c_def using assms by linarith+
  have r: "real (nat (c - 1)) = real_of_int c - 1"
    using c2 by simp
  show "0 < nat (\<lceil>x\<rceil> - 1)" "real (nat (\<lceil>x\<rceil> - 1)) < x"
    "x \<le> real (nat (\<lceil>x\<rceil> - 1)) + 1"
    unfolding c_def [symmetric] r using c2 lo hi by simp_all
qed

lemma ilog2_bounds:
  assumes "0 < q"
  shows "pow2 (ilog2 q) \<le> q" and "q < pow2 (ilog2 q + 1)"
proof -
  show "pow2 (ilog2 q) \<le> q"
  proof (cases "1 \<le> q")
    case True
    define f where "f = nat \<lfloor>q\<rfloor>"
    from nat_floor_bounds [OF True] have f1: "0 < f" and fq: "real f \<le> q"
      by (simp_all add: f_def)
    from bit_length_bounds [OF f1] have "(2 :: nat) ^ (bit_length f - 1) \<le> f" by simp
    then have "real ((2 :: nat) ^ (bit_length f - 1)) \<le> real f"
      by (rule of_nat_mono)
    then have "2 ^ (bit_length f - 1) \<le> real f"
      by simp
    then have le: "2 ^ (bit_length f - 1) \<le> q"
      using fq by (rule order_trans)
    have "0 < bit_length f"
      using f1 by (simp add: bit_length_pos)
    then have "int (bit_length f) - 1 = int (bit_length f - 1)" by simp
    then have "pow2 (int (bit_length f) - 1) = 2 ^ (bit_length f - 1)"
      by (simp only: pow2_nat)
    then show ?thesis
      using True le by (simp add: ilog2_def f_def [symmetric])
  next
    case False
    define k where "k = nat (\<lceil>1 / q\<rceil> - 1)"
    from False assms have x1: "1 < 1 / q" by simp
    from nat_ceiling_bounds [OF x1] have k1: "0 < k" and kx: "1 / q \<le> real k + 1"
      by (simp_all add: k_def)
    from bit_length_bounds [OF k1] have "k < 2 ^ bit_length k" by simp
    then have "k + 1 \<le> 2 ^ bit_length k" by simp
    then have "real (k + 1) \<le> real ((2 :: nat) ^ bit_length k)"
      by (rule of_nat_mono)
    then have "real k + 1 \<le> 2 ^ bit_length k"
      by simp
    with kx have "1 / q \<le> 2 ^ bit_length k"
      by (rule order_trans)
    then have "1 / 2 ^ bit_length k \<le> q"
      using assms by (simp add: field_simps)
    moreover have "0 < bit_length k"
      using k1 by (simp add: bit_length_pos)
    ultimately show ?thesis
      using False by (simp add: ilog2_def k_def [symmetric] pow2_def)
  qed
  show "q < pow2 (ilog2 q + 1)"
  proof (cases "1 \<le> q")
    case True
    define f where "f = nat \<lfloor>q\<rfloor>"
    from nat_floor_bounds [OF True] have f1: "0 < f" and fq: "q < real f + 1"
      by (simp_all add: f_def)
    from bit_length_bounds [OF f1] have "f < 2 ^ bit_length f" by simp
    then have "f + 1 \<le> 2 ^ bit_length f" by simp
    then have "real (f + 1) \<le> real ((2 :: nat) ^ bit_length f)"
      by (rule of_nat_mono)
    then have "real f + 1 \<le> 2 ^ bit_length f"
      by simp
    with fq have "q < 2 ^ bit_length f"
      by (rule less_le_trans)
    moreover have "pow2 (int (bit_length f) - 1 + 1) = 2 ^ bit_length f"
      by (simp add: pow2_nat)
    ultimately show ?thesis
      using True by (simp add: ilog2_def f_def [symmetric])
  next
    case False
    define k where "k = nat (\<lceil>1 / q\<rceil> - 1)"
    from False assms have x1: "1 < 1 / q" by simp
    from nat_ceiling_bounds [OF x1] have k1: "0 < k" and kx: "real k < 1 / q"
      by (simp_all add: k_def)
    from bit_length_bounds [OF k1] have "(2 :: nat) ^ (bit_length k - 1) \<le> k" by simp
    then have "real ((2 :: nat) ^ (bit_length k - 1)) \<le> real k"
      by (rule of_nat_mono)
    then have "2 ^ (bit_length k - 1) \<le> real k"
      by simp
    then have lt: "2 ^ (bit_length k - 1) < 1 / q"
      using kx by (rule le_less_trans)
    have bpos: "0 < bit_length k"
      using k1 by (simp add: bit_length_pos)
    have "q < 1 / 2 ^ (bit_length k - 1)"
      using lt assms by (simp add: field_simps)
    moreover have "pow2 (- int (bit_length k) + 1) = 1 / 2 ^ (bit_length k - 1)"
    proof (cases "bit_length k - 1 = 0")
      case True
      with bpos have "bit_length k = 1" by simp
      then show ?thesis by simp
    next
      case False
      then have "- int (bit_length k) + 1 < 0" by simp
      moreover have "nat (- (- int (bit_length k) + 1)) = bit_length k - 1" by simp
      ultimately show ?thesis
        by (simp add: pow2_def)
    qed
    ultimately show ?thesis
      using False by (simp add: ilog2_def k_def [symmetric])
  qed
qed

lemma ilog2_unique:
  assumes "0 < q" "pow2 e \<le> q" "q < pow2 (e + 1)"
  shows "ilog2 q = e"
proof (rule antisym)
  from ilog2_bounds(1) [OF assms(1)] assms(3) have "pow2 (ilog2 q) < pow2 (e + 1)" by simp
  then show "ilog2 q \<le> e" by (simp add: pow2_less_iff)
  from ilog2_bounds(2) [OF assms(1)] assms(2) have "pow2 e < pow2 (ilog2 q + 1)" by simp
  then show "e \<le> ilog2 q" by (simp add: pow2_less_iff)
qed

lemma ilog2_mono:
  assumes "0 < x" "x \<le> y"
  shows "ilog2 x \<le> ilog2 y"
proof -
  from assms have y: "0 < y" by simp
  from ilog2_bounds(1) [OF assms(1)] assms(2) ilog2_bounds(2) [OF y]
  have "pow2 (ilog2 x) < pow2 (ilog2 y + 1)" by simp
  then show ?thesis by (simp add: pow2_less_iff)
qed

lemma rne_of_int [simp]: "rne (of_int k) = k"
  by (simp add: rne_def)

lemma rne_floor_or_succ: "rne m = \<lfloor>m\<rfloor> \<or> rne m = \<lfloor>m\<rfloor> + 1"
  by (simp add: rne_def Let_def)

lemma rne_mono:
  assumes "x \<le> y"
  shows "rne x \<le> rne y"
proof (cases "\<lfloor>x\<rfloor> = \<lfloor>y\<rfloor>")
  case True
  with assms have "x - of_int \<lfloor>x\<rfloor> \<le> y - of_int \<lfloor>y\<rfloor>" by simp
  then show ?thesis
    using True unfolding rne_def Let_def by (simp split: if_splits)
next
  case False
  with assms have "\<lfloor>x\<rfloor> < \<lfloor>y\<rfloor>"
    by (simp add: floor_mono le_neq_trans)
  then show ?thesis
    using rne_floor_or_succ [of x] rne_floor_or_succ [of y] by linarith
qed

lemma rne_ge: "of_int a \<le> x \<Longrightarrow> a \<le> rne x"
  using rne_mono [of "of_int a" x] by simp

lemma rne_le: "x \<le> of_int b \<Longrightarrow> rne x \<le> b"
  using rne_mono [of x "of_int b"] by simp

lemma round_f64_0 [simp]: "round_f64 0 = 0"
  by (simp add: round_f64_def)

lemma round_f64_pos_eq:
  "0 < q \<Longrightarrow> round_f64 q = of_int (rne (q / pow2 (ilog2 q - 52))) * pow2 (ilog2 q - 52)"
  by (simp add: round_f64_def Let_def)

lemma scaled_bounds:
  assumes "0 < q"
  shows "2 ^ 52 \<le> q / pow2 (ilog2 q - 52)" and "q / pow2 (ilog2 q - 52) < 2 ^ 53"
proof -
  have u: "0 < pow2 (ilog2 q - 52)" by simp
  have "2 ^ 52 * pow2 (ilog2 q - 52) \<le> q"
    using ilog2_bounds(1) [OF assms] pow2_split_52 [of "ilog2 q"] by simp
  then show "2 ^ 52 \<le> q / pow2 (ilog2 q - 52)"
    using u by (simp add: pos_le_divide_eq)
  have "q < 2 ^ 53 * pow2 (ilog2 q - 52)"
    using ilog2_bounds(2) [OF assms] pow2_split_53 [of "ilog2 q"] by simp
  then show "q / pow2 (ilog2 q - 52) < 2 ^ 53"
    using u by (simp add: pos_divide_less_eq)
qed

lemma round_f64_binade:
  assumes "0 < q"
  shows "pow2 (ilog2 q) \<le> round_f64 q" and "round_f64 q \<le> pow2 (ilog2 q + 1)"
proof -
  let ?u = "pow2 (ilog2 q - 52)"
  let ?r = "rne (q / ?u)"
  have r: "round_f64 q = of_int ?r * ?u"
    using assms by (rule round_f64_pos_eq)
  have "real_of_int (2 ^ 52) \<le> q / ?u"
    using scaled_bounds(1) [OF assms] by simp
  then have "(2 ^ 52 :: int) \<le> ?r"
    by (rule rne_ge)
  then have "real_of_int (2 ^ 52) \<le> real_of_int ?r"
    by (simp only: of_int_le_iff)
  then have "2 ^ 52 * ?u \<le> of_int ?r * ?u"
    by (simp add: mult_right_mono)
  then show "pow2 (ilog2 q) \<le> round_f64 q"
    unfolding r using pow2_split_52 [of "ilog2 q"] by simp
  have "q / ?u \<le> real_of_int (2 ^ 53)"
    using scaled_bounds(2) [OF assms] by simp
  then have "?r \<le> (2 ^ 53 :: int)"
    by (rule rne_le)
  then have "real_of_int ?r \<le> real_of_int (2 ^ 53)"
    by (simp only: of_int_le_iff)
  then have "of_int ?r * ?u \<le> 2 ^ 53 * ?u"
    by (simp add: mult_right_mono)
  then show "round_f64 q \<le> pow2 (ilog2 q + 1)"
    unfolding r using pow2_split_53 [of "ilog2 q"] by simp
qed

lemma round_f64_pos: "0 < q \<Longrightarrow> 0 < round_f64 q"
  using round_f64_binade(1) [of q] pow2_pos [of "ilog2 q"] by linarith

lemma round_f64_mono:
  assumes "0 < x" "x \<le> y"
  shows "round_f64 x \<le> round_f64 y"
proof -
  from assms have y: "0 < y" by simp
  show ?thesis
  proof (cases "ilog2 x = ilog2 y")
    case True
    let ?u = "pow2 (ilog2 y - 52)"
    have u: "0 < ?u" by simp
    have "x / ?u \<le> y / ?u"
      using assms(2) u by (intro divide_right_mono) simp_all
    then have "rne (x / ?u) \<le> rne (y / ?u)"
      by (rule rne_mono)
    then have "real_of_int (rne (x / ?u)) \<le> real_of_int (rne (y / ?u))"
      by (simp only: of_int_le_iff)
    then have "real_of_int (rne (x / ?u)) * ?u \<le> real_of_int (rne (y / ?u)) * ?u"
      using u by (simp add: mult_right_mono)
    then show ?thesis
      unfolding round_f64_pos_eq [OF assms(1)] round_f64_pos_eq [OF y] True .
  next
    case False
    with ilog2_mono [OF assms] have "ilog2 x + 1 \<le> ilog2 y" by simp
    then have "pow2 (ilog2 x + 1) \<le> pow2 (ilog2 y)"
      by (rule pow2_mono)
    with round_f64_binade(2) [OF assms(1)] round_f64_binade(1) [OF y] show ?thesis
      by linarith
  qed
qed

lemma round_f64_pow2 [simp]: "round_f64 (pow2 k) = pow2 k"
proof -
  have l: "ilog2 (pow2 k) = k"
    by (rule ilog2_unique) (simp_all add: pow2_less_iff)
  have u: "pow2 (k - 52) \<noteq> 0"
    using pow2_pos [of "k - 52"] by linarith
  have "pow2 k / pow2 (k - 52) = real_of_int (2 ^ 52)"
    using u by (simp add: pow2_split_52 [of k])
  then have "rne (pow2 k / pow2 (k - 52)) = 2 ^ 52"
    by (simp only: rne_of_int)
  then have "round_f64 (pow2 k) = real_of_int (2 ^ 52) * pow2 (k - 52)"
    unfolding round_f64_pos_eq [OF pow2_pos] l by (simp only:)
  then show ?thesis
    using pow2_split_52 [of k] by simp
qed

lemma round_f64_le_pow2: "0 < x \<Longrightarrow> x \<le> pow2 k \<Longrightarrow> round_f64 x \<le> pow2 k"
  using round_f64_mono [of x "pow2 k"] by simp

lemma round_f64_ge_pow2: "pow2 k \<le> x \<Longrightarrow> pow2 k \<le> round_f64 x"
  using round_f64_mono [of "pow2 k" x] by simp

lemma round_f64_le_1: "0 < x \<Longrightarrow> x \<le> 1 \<Longrightarrow> round_f64 x \<le> 1"
  using round_f64_le_pow2 [of x 0] by simp

lemma round_f64_ge_1: "1 \<le> x \<Longrightarrow> 1 \<le> round_f64 x"
  using round_f64_ge_pow2 [of 0 x] by simp


section \<open>The bucket invariant\<close>

lemma sint_word_of_int_range:
  "- (2 ^ 63) \<le> t \<Longrightarrow> t < 2 ^ 63 \<Longrightarrow> sint (word_of_int t :: int64) = t"
  by (simp add: sint_sbintrunc' signed_take_bit_int_eq_self)

lemma sint_add_no_overflow:
  fixes a b :: int64
  shows "- (2 ^ 63) \<le> sint a + sint b \<Longrightarrow> sint a + sint b < 2 ^ 63 \<Longrightarrow>
         sint (a + b) = sint a + sint b"
  by (simp add: sint_word_ariths signed_take_bit_int_eq_self)

lemma sint_sub_no_overflow:
  fixes a b :: int64
  shows "- (2 ^ 63) \<le> sint a - sint b \<Longrightarrow> sint a - sint b < 2 ^ 63 \<Longrightarrow>
         sint (a - b) = sint a - sint b"
  by (simp add: sint_word_ariths signed_take_bit_int_eq_self)

lemma sint_int64_range: "- (2 ^ 63) \<le> sint (w :: int64)" "sint (w :: int64) < 2 ^ 63"
  using sint_ge [of w] sint_lt [of w] by simp_all

lemma pow2_62: "pow2 62 = 2 ^ 62"
  by (simp add: pow2_def)

lemma round_f64_int_bounds:
  assumes "1 \<le> (i :: int)" "i \<le> 2 ^ k"
  shows "1 \<le> round_f64 (real_of_int i)" and "round_f64 (real_of_int i) \<le> 2 ^ k"
proof -
  have one: "1 \<le> real_of_int i"
    using assms(1) by simp
  then show "1 \<le> round_f64 (real_of_int i)"
    by (rule round_f64_ge_1)
  have "real_of_int i \<le> real_of_int (2 ^ k)"
    using assms(2) by (simp only: of_int_le_iff)
  then have "real_of_int i \<le> pow2 (int k)"
    by (simp add: pow2_nat)
  with one have "round_f64 (real_of_int i) \<le> pow2 (int k)"
    by (intro round_f64_le_pow2) simp_all
  then show "round_f64 (real_of_int i) \<le> 2 ^ k"
    by (simp add: pow2_nat)
qed

lemma f64_of_int64_eq: "sint w = i \<Longrightarrow> f64_of_int64 w = Fin (round_f64 (real_of_int i))"
  by (simp only: f64_of_int64_def)

text \<open>
  The ratio \<^verbatim>\<open>float64(timeSinceLastRefill) / float64(tb.refillInterval)\<close> of the
  partial refill, for \<open>0 < elapsed < interval\<close>: a finite double in \<open>(0, 1]\<close>.
\<close>

lemma elapsed_ratio:
  assumes "0 < sint d" "sint d < sint i"
  shows "\<exists>r. fdiv (f64_of_int64 d) (f64_of_int64 i) = Fin r \<and> 0 < r \<and> r \<le> 1"
proof -
  define D where "D = sint d"
  define I where "I = sint i"
  let ?fd = "round_f64 (real_of_int D)"
  let ?fi = "round_f64 (real_of_int I)"
  have d1: "1 \<le> real_of_int D" and di: "real_of_int D \<le> real_of_int I"
    using assms unfolding D_def [symmetric] I_def [symmetric] by simp_all
  have fd: "1 \<le> ?fd"
    using d1 by (rule round_f64_ge_1)
  have le: "?fd \<le> ?fi"
    using d1 di by (intro round_f64_mono) simp_all
  have pos: "0 < ?fd / ?fi" and le1: "?fd / ?fi \<le> 1"
    using fd le by simp_all
  have cd: "f64_of_int64 d = Fin ?fd" and ci: "f64_of_int64 i = Fin ?fi"
    by (simp_all only: f64_of_int64_eq [OF D_def [symmetric]] f64_of_int64_eq [OF I_def [symmetric]])
  have "fdiv (f64_of_int64 d) (f64_of_int64 i) = Fin (round_f64 (?fd / ?fi))"
    unfolding cd ci using fd le by (intro fdiv_Fin) simp_all
  moreover have "0 < round_f64 (?fd / ?fi)"
    using pos by (rule round_f64_pos)
  moreover have "round_f64 (?fd / ?fi) \<le> 1"
    using pos le1 by (rule round_f64_le_1)
  ultimately show ?thesis
    by blast
qed

lemma int64_of_f64_floor:
  assumes "0 < p" "p \<le> 2 ^ 62"
  shows "int64_of_f64 oor (Fin p) = word_of_int \<lfloor>p\<rfloor>"
    and "sint (int64_of_f64 oor (Fin p)) = \<lfloor>p\<rfloor>"
    and "0 \<le> \<lfloor>p\<rfloor>" and "\<lfloor>p\<rfloor> \<le> 2 ^ 62"
proof -
  show t0: "0 \<le> \<lfloor>p\<rfloor>"
    using assms(1) by simp
  have "\<lfloor>p\<rfloor> \<le> \<lfloor>2 ^ 62 :: real\<rfloor>"
    using assms(2) by (rule floor_mono)
  then show t1: "\<lfloor>p\<rfloor> \<le> 2 ^ 62"
    by simp
  have tr: "trunc_rat p = \<lfloor>p\<rfloor>"
    using assms(1) by (simp add: trunc_rat_def)
  show e: "int64_of_f64 oor (Fin p) = word_of_int \<lfloor>p\<rfloor>"
    using t0 t1 by (simp add: tr)
  show "sint (int64_of_f64 oor (Fin p)) = \<lfloor>p\<rfloor>"
    unfolding e using t0 t1 by (intro sint_word_of_int_range) simp_all
qed

lemma replenishedTokens_bounds:
  assumes cap: "0 \<le> sint (capacity tb)" "sint (capacity tb) \<le> 2 ^ 62"
    and el: "0 < sint d" "sint d < sint (refillInterval tb)"
  shows "0 \<le> sint (replenishedTokens oor tb d)" and "sint (replenishedTokens oor tb d) \<le> 2 ^ 62"
proof -
  from elapsed_ratio [OF el] obtain r
    where r: "fdiv (f64_of_int64 d) (f64_of_int64 (refillInterval tb)) = Fin r"
      and r0: "0 < r" and r1: "r \<le> 1"
    by blast
  define C where "C = sint (capacity tb)"
  have cc: "f64_of_int64 (capacity tb) = Fin (round_f64 (real_of_int C))"
    by (simp only: f64_of_int64_eq [OF C_def [symmetric]])
  have "0 \<le> sint (replenishedTokens oor tb d) \<and> sint (replenishedTokens oor tb d) \<le> 2 ^ 62"
  proof (cases "C = 0")
    case True
    then have "f64_of_int64 (capacity tb) = Fin 0"
      unfolding cc by simp
    then have "fmul (f64_of_int64 (capacity tb)) (Fin r) = Fin 0"
      using r0 by (simp add: fmul_def f64_zero_def)
    then have "replenishedTokens oor tb d = 0"
      by (simp add: replenishedTokens_def r trunc_rat_def)
    then show ?thesis
      by simp
  next
    case False
    with cap(1) have c1: "1 \<le> C"
      unfolding C_def by simp
    have c2: "C \<le> 2 ^ 62"
      using cap(2) unfolding C_def .
    let ?fc = "round_f64 (real_of_int C)"
    from round_f64_int_bounds [OF c1 c2] have fc1: "1 \<le> ?fc" and fc2: "?fc \<le> 2 ^ 62"
      by simp_all
    have p0: "0 < ?fc * r"
      using fc1 r0 by simp
    have "?fc * r \<le> ?fc * 1"
      using fc1 r1 by (intro mult_left_mono) simp_all
    then have p1: "?fc * r \<le> pow2 62"
      using fc2 by (simp add: pow2_62)
    let ?p = "round_f64 (?fc * r)"
    have pp: "0 < ?p"
      using p0 by (rule round_f64_pos)
    have pl: "?p \<le> 2 ^ 62"
      using round_f64_le_pow2 [OF p0 p1] by (simp add: pow2_62)
    have m: "fmul (f64_of_int64 (capacity tb)) (Fin r) = Fin ?p"
      unfolding cc using fc1 r0 by (intro fmul_Fin) simp_all
    have rep: "replenishedTokens oor tb d = int64_of_f64 oor (Fin ?p)"
      by (simp only: replenishedTokens_def r m)
    show ?thesis
      unfolding rep using int64_of_f64_floor [OF pp pl] by simp
  qed
  then show "0 \<le> sint (replenishedTokens oor tb d)"
    and "sint (replenishedTokens oor tb d) \<le> 2 ^ 62"
    by simp_all
qed

lemma TB_Consume_inv:
  assumes inv: "bucketInv tb" and n: "0 \<le>s n"
  shows "bucketInv (fst (TB_Consume tb n now))" and "capacity (fst (TB_Consume tb n now)) = capacity tb"
proof -
  let ?tb1 = "refill tb now"
  have inv1: "0 \<le> sint (remaining ?tb1)" "sint (remaining ?tb1) \<le> sint (capacity tb)"
    using inv by (auto simp: bucketInv_def refill_def word_sle_eq)
  have n0: "0 \<le> sint n"
    using n by (simp add: word_sle_eq)
  show "capacity (fst (TB_Consume tb n now)) = capacity tb"
    by (simp add: TB_Consume_def Let_def)
  show "bucketInv (fst (TB_Consume tb n now))"
  proof (cases "n \<le>s remaining ?tb1")
    case True
    then have le: "sint n \<le> sint (remaining ?tb1)"
      by (simp add: word_sle_eq)
    have "sint (remaining ?tb1 - n) = sint (remaining ?tb1) - sint n"
      using n0 le inv1 sint_int64_range [of "remaining ?tb1"]
      by (intro sint_sub_no_overflow) linarith+
    then show ?thesis
      using True n0 le inv1 by (simp add: TB_Consume_def Let_def bucketInv_def word_sle_eq)
  next
    case False
    then show ?thesis
      using inv1 by (simp add: TB_Consume_def Let_def bucketInv_def word_sle_eq)
  qed
qed

lemma TB_Wait_inv:
  assumes inv: "bucketInv tb" and cap: "sint (capacity tb) < 2 ^ 62"
  shows "bucketInv (fst (TB_Wait oor tb n now))" and "capacity (fst (TB_Wait oor tb n now)) = capacity tb"
proof -
  let ?d = "Sub now (lastRefill tb)"
  from inv have r0: "0 \<le> sint (remaining tb)" and rc: "sint (remaining tb) \<le> sint (capacity tb)"
    by (simp_all add: bucketInv_def word_sle_eq)
  then have c0: "0 \<le> sint (capacity tb)"
    by simp
  show "capacity (fst (TB_Wait oor tb n now)) = capacity tb"
    by (simp add: TB_Wait_def Let_def)
  show "bucketInv (fst (TB_Wait oor tb n now))"
  proof (cases "refillInterval tb \<le>s ?d")
    case True
    then show ?thesis
      using c0 by (simp add: TB_Wait_def Let_def bucketInv_def word_sle_eq)
  next
    case False
    note nd = this
    show ?thesis
    proof (cases "0 <s ?d")
      case True
      have el: "0 < sint ?d" "sint ?d < sint (refillInterval tb)"
        using True nd by (simp_all add: word_sle_eq word_sless_alt)
      have c2: "sint (capacity tb) \<le> 2 ^ 62"
        using cap by simp
      note rp = replenishedTokens_bounds [OF c0 c2 el, of oor]
      let ?s = "remaining tb + replenishedTokens oor tb ?d"
      have "sint ?s = sint (remaining tb) + sint (replenishedTokens oor tb ?d)"
        using r0 rc cap rp by (intro sint_add_no_overflow) simp_all
      then have s0: "0 \<le> sint ?s"
        using r0 rp by simp
      have "0 \<le> sint (min64 (capacity tb) ?s) \<and> sint (min64 (capacity tb) ?s) \<le> sint (capacity tb)"
        using s0 c0 by (simp add: min64_def word_sle_eq)
      then show ?thesis
        using True nd by (simp add: TB_Wait_def Let_def bucketInv_def word_sle_eq)
    next
      case False
      then show ?thesis
        using nd inv by (simp add: TB_Wait_def Let_def)
    qed
  qed
qed

lemma TB_step_inv:
  assumes inv: "bucketInv tb" and cap: "sint (capacity tb) < 2 ^ 62" and nn: "nonnegAmount x"
  shows "bucketInv (TB_step oor tb x) \<and> capacity (TB_step oor tb x) = capacity tb"
proof (cases x)
  case (Pair opn now)
  show ?thesis
    unfolding Pair using inv nn [unfolded Pair]
    by (cases opn)
      (simp_all add: TB_Consume_inv TB_TryConsume_def TB_Wait_inv [OF inv cap])
qed

lemma foldl_TB_step_inv:
  "bucketInv tb \<Longrightarrow> sint (capacity tb) < 2 ^ 62 \<Longrightarrow> list_all nonnegAmount ops \<Longrightarrow>
   bucketInv (foldl (TB_step oor) tb ops) \<and> capacity (foldl (TB_step oor) tb ops) = capacity tb"
proof (induction ops arbitrary: tb)
  case Nil
  then show ?case by simp
next
  case (Cons x xs)
  from Cons.prems have nn: "nonnegAmount x" and nns: "list_all nonnegAmount xs"
    by simp_all
  from TB_step_inv [OF Cons.prems(1,2) nn, of oor]
  have i1: "bucketInv (TB_step oor tb x)" and c1: "capacity (TB_step oor tb x) = capacity tb"
    by simp_all
  from Cons.IH [OF i1 _ nns] c1 Cons.prems(2) show ?case
    by simp
qed

text \<open>
  Below \<open>2\<^sup>6\<^sup>2\<close> tokens of capacity the invariant \<open>0 \<le> remaining \<le> capacity\<close> holds
  after every sequence of bucket operations with non-negative consumed amounts, at every
  clock reading and for every behaviour of out-of-range conversions.
\<close>

lemma bucket_invariant_below_2_62:
  assumes "0 \<le>s initialTokens" and "initialTokens \<le>s cap" and "sint cap < 2 ^ 62"
    and "list_all nonnegAmount ops"
  shows "0 \<le>s remaining (foldl (TB_step oor) (NewTokenBucket cap initialTokens interval t0) ops)
       \<and> remaining (foldl (TB_step oor) (NewTokenBucket cap initialTokens interval t0) ops)
           \<le>s capacity (foldl (TB_step oor) (NewTokenBucket cap initialTokens interval t0) ops)
       \<and> capacity (foldl (TB_step oor) (NewTokenBucket cap initialTokens interval t0) ops) = cap"
proof -
  let ?tb = "NewTokenBucket cap initialTokens interval t0"
  have i: "bucketInv ?tb"
    using assms(1,2) by (simp add: bucketInv_def NewTokenBucket_def)
  have c: "sint (capacity ?tb) < 2 ^ 62"
    using assms(3) by (simp add: NewTokenBucket_def)
  from foldl_TB_step_inv [OF i c assms(4), of oor]
  have a: "bucketInv (foldl (TB_step oor) ?tb ops)"
    and b: "capacity (foldl (TB_step oor) ?tb ops) = capacity ?tb"
    by simp_all
  have b': "capacity (foldl (TB_step oor) ?tb ops) = cap"
    unfolding b by (simp add: NewTokenBucket_def)
  show ?thesis
    using a unfolding bucketInv_def b' by simp
qed

lemma f64_of_int64_6e18: "f64_of_int64 6000000000000000000 = Fin 6000000000000000000"
  by (simp add: f64_of_int64_def round_eval)

lemma f64_of_int64_45e9: "f64_of_int64 45000000000 = Fin 45000000000"
  by (simp add: f64_of_int64_def round_eval)

lemma round_f64_3_4: "round_f64 (3 / 4) = 3 / 4"
  by (simp add: round_eval)

lemma round_f64_45e17: "round_f64 4500000000000000000 = 4500000000000000000"
  by (simp add: round_eval)

lemma replenishedTokens_6e18:
  "replenishedTokens oor
     \<lparr>capacity = 6000000000000000000, remaining = 6000000000000000000,
      refillInterval = Minute, lastRefill = 0\<rparr> 45000000000
   = 4500000000000000000"
proof -
  have q: "fdiv (Fin 45000000000) (Fin 60000000000) = Fin (3 / 4)"
    by (simp add: fdiv_Fin round_f64_3_4)
  have m: "fmul (Fin 6000000000000000000) (Fin (3 / 4)) = Fin 4500000000000000000"
    by (simp add: fmul_Fin round_f64_45e17)
  have t: "int64_of_f64 oor (Fin 4500000000000000000) = 4500000000000000000"
    by (simp add: trunc_rat_def)
  show ?thesis
    by (simp add: replenishedTokens_def f64_of_int64_6e18 f64_of_int64_45e9 f64_of_int64_Minute
        q m t del: int64_of_f64.simps)
qed

text \<open>
  C9.  The invariant is what the code aims at (\<^verbatim>\<open>min(tb.capacity, ...)\<close> caps the
  refill), and it is missed where the sum under the cap overflows.  A bucket created with
  capacity and initial tokens \<open>6\<cdot>10\<^sup>1\<^sup>8\<close> and a refill interval of one minute, asked
  \<^verbatim>\<open>Wait(1)\<close> 45 seconds later: the partial refill is \<open>4.5\<cdot>10\<^sup>1\<^sup>8\<close>, the sum
  \<open>10.5\<cdot>10\<^sup>1\<^sup>8\<close> wraps to \<open>-7946744073709551616\<close>, the minimum with the capacity
  is that number, and \<^verbatim>\<open>remaining\<close> is negative.
\<close>

theorem C9_Wait_overflow:
  "(0 :: int64) \<le>s 6000000000000000000
   \<and> (6000000000000000000 :: int64) \<le>s 6000000000000000000
   \<and> sint (remaining
        (TB_step (\<lambda>x. 0) (NewTokenBucket 6000000000000000000 6000000000000000000 Minute 0)
           (OpWait 1, 45000000000)))
     = - 7946744073709551616
   \<and> remaining
        (TB_step (\<lambda>x. 0) (NewTokenBucket 6000000000000000000 6000000000000000000 Minute 0)
           (OpWait 1, 45000000000)) <s 0"
proof -
  let ?tb = "\<lparr>capacity = 6000000000000000000, remaining = 6000000000000000000,
              refillInterval = Minute, lastRefill = 0\<rparr>"
  have d: "Sub 45000000000 0 = 45000000000"
    by (simp add: Sub_def maxDuration_def minDuration_def)
  have nd: "\<not> Minute \<le>s (45000000000 :: int64)" and pos: "(0 :: int64) <s 45000000000"
    by (simp_all add: Minute_def word_sle_eq word_sless_alt)
  have w: "fst (TB_Wait (\<lambda>x. 0) ?tb 1 45000000000)
      = ?tb\<lparr>remaining := min64 6000000000000000000
                               (6000000000000000000 + 4500000000000000000),
             lastRefill := 45000000000\<rparr>"
    using nd pos by (simp add: TB_Wait_def d replenishedTokens_6e18 Let_def)
  have s: "sint (min64 6000000000000000000 (6000000000000000000 + 4500000000000000000) :: int64)
      = - 7946744073709551616"
    by (simp add: min64_def word_sle_eq)
  show ?thesis
    using w s by (simp add: NewTokenBucket_def word_sle_eq word_sless_alt)
qed

end
